theory Spec2Isabelle
  imports Main "HOL-Library.Sublist" "HOL-Library.Char_ord" "HOL-Library.List_Lexorder"
    "HOL-Library.Product_Lexorder"
begin

text \<open>
  A shallow embedding of the file synchronisation of a browser-based editor: the HTTP
  handlers of the file router and its tree listing, the Change Watcher and the Fan-out
  Hub of the server, and the state of the browser-side Reconciler. Definitions come
  first, section by section in the order of the components; the theorems follow.
\<close>

section \<open>JavaScript values\<close>

text \<open>
  Paths, file contents and channel names are JavaScript strings, modelled as \<open>string\<close>.
  A value that may be \<open>undefined\<close> or \<open>null\<close> (an array read out of range, a missing
  object property, \<open>activeFile\<close>) is an \<open>option\<close>, \<open>None\<close> standing for both.
  Property names inherited from \<open>Object.prototype\<close> (a path such as \<open>constructor\<close>)
  are outside the model of \<open>fileContents\<close>.
\<close>

type_synonym path = string

text \<open>Truthiness of a string-or-undefined value: \<open>undefined\<close>, \<open>null\<close> and \<open>""\<close> are falsy.\<close>

definition truthy :: "string option \<Rightarrow> bool" where
  "truthy v = (case v of None \<Rightarrow> False | Some s \<Rightarrow> s \<noteq> [])"

text \<open>\<open>a || b\<close> on such values.\<close>

definition js_or :: "string option \<Rightarrow> string option \<Rightarrow> string option" where
  "js_or a b = (if truthy a then a else b)"

text \<open>\<open>xs[i]\<close>: \<open>undefined\<close> out of range, also for a negative index.\<close>

definition js_index :: "'a list \<Rightarrow> int \<Rightarrow> 'a option" where
  "js_index xs i = (if 0 \<le> i \<and> i < int (length xs) then Some (xs ! nat i) else None)"

text \<open>\<open>xs.indexOf(x)\<close>: the first index holding \<open>x\<close>, or \<open>-1\<close>.\<close>

fun indexOf_from :: "'a list \<Rightarrow> 'a \<Rightarrow> int \<Rightarrow> int" where
  "indexOf_from [] x i = - 1"
| "indexOf_from (y # ys) x i = (if y = x then i else indexOf_from ys x (i + 1))"

definition indexOf :: "'a list \<Rightarrow> 'a \<Rightarrow> int" where
  "indexOf xs x = indexOf_from xs x 0"

section \<open>Data model\<close>

text \<open>
  An entry of the tree listing, as \<open>buildFileTree\<close> builds it: a file object has
  \<open>name, path, type: 'file', size, modified\<close>, a directory object has
  \<open>name, path, type: 'directory', children\<close>.
\<close>

datatype entry_type = TFile | TDirectory

datatype WorkspaceEntry =
    FileEntry (entry_name: string) (entry_path: path) (entry_size: nat) (entry_modified: nat)
  | DirectoryEntry (entry_name: string) (entry_path: path) (children: "WorkspaceEntry list")

fun type_of :: "WorkspaceEntry \<Rightarrow> entry_type" where
  "type_of (FileEntry n p s m) = TFile"
| "type_of (DirectoryEntry n p cs) = TDirectory"

text \<open>
  A value as \<open>JSON.parse\<close> returns it. An object holds each key once; a number is kept
  as its literal.
\<close>

datatype json =
    JNull
  | JBool bool
  | JNumber string
  | JString string
  | JArray "json list"
  | JObject "(string \<times> json) list"

text \<open>
  The messages the server writes to a socket (the wire protocol, before
  \<open>JSON.stringify\<close>). \<open>subscribed\<close> carries \<open>data.channel\<close> as it came: any value, or
  nothing when the property is missing (\<open>JSON.stringify\<close> leaves an undefined property out).
\<close>

datatype server_message =
    Connected string nat
  | FileAdded path
  | FileChanged path
  | FileDeleted path
  | Pong nat
  | Subscribed "json option"

section \<open>Client Reconciler (FileProvider)\<close>

text \<open>
  The four pieces of React state the claims are about, and \<open>loading\<close>. A call of one of
  the provider's functions reads the state of the render it was created in and queues
  updates; the model runs one call to its end on the state it was created in, with the
  HTTP responses it awaits given as arguments (\<open>Inl\<close> a failed request).
\<close>

record ReconcilerState =
  fileTree :: "WorkspaceEntry list"
  openFiles :: "path list"
  activeFile :: "path option"
  fileContents :: "path \<rightharpoonup> string"
  loading :: bool

text \<open>The \<open>useState\<close> initialisers.\<close>

definition initial_state :: ReconcilerState where
  "initial_state =
     \<lparr>fileTree = [], openFiles = [], activeFile = None, fileContents = Map.empty, loading = False\<rparr>"

text \<open>\<open>loadFileTree\<close>: a failed request is logged, never thrown; \<open>loading\<close> ends false.\<close>

definition loadFileTree :: "string + WorkspaceEntry list \<Rightarrow> ReconcilerState \<Rightarrow> ReconcilerState" where
  "loadFileTree resp s =
     (case resp of
        Inl e \<Rightarrow> s\<lparr>loading := False\<rparr>
      | Inr tree \<Rightarrow> s\<lparr>fileTree := tree, loading := False\<rparr>)"

text \<open>\<open>loadFile\<close>: stores and returns the content, or rethrows.\<close>

definition loadFile :: "path \<Rightarrow> string + string \<Rightarrow> ReconcilerState \<Rightarrow> (string + string) \<times> ReconcilerState" where
  "loadFile filePath resp s =
     (case resp of
        Inl e \<Rightarrow> (Inl e, s)
      | Inr content \<Rightarrow> (Inr content, s\<lparr>fileContents := (fileContents s)(filePath \<mapsto> content)\<rparr>))"

definition saveFile :: "path \<Rightarrow> string \<Rightarrow> string + unit \<Rightarrow> ReconcilerState \<Rightarrow> (string + bool) \<times> ReconcilerState" where
  "saveFile filePath content resp s =
     (case resp of
        Inl e \<Rightarrow> (Inl e, s)
      | Inr u \<Rightarrow> (Inr True, s\<lparr>fileContents := (fileContents s)(filePath \<mapsto> content)\<rparr>))"

definition createFile :: "path \<Rightarrow> string + unit \<Rightarrow> string + WorkspaceEntry list \<Rightarrow> ReconcilerState
    \<Rightarrow> (string + bool) \<times> ReconcilerState" where
  "createFile filePath resp tree_resp s =
     (case resp of
        Inl e \<Rightarrow> (Inl e, s)
      | Inr u \<Rightarrow> (Inr True, loadFileTree tree_resp s))"

text \<open>
  \<open>deleteFile\<close>: \<open>openFiles\<close> and \<open>activeFile\<close> on the right-hand sides are the values of
  the render the call was created in, as in the source: \<open>setActiveFile(openFiles[0] || null)\<close>
  reads the list as it was before the filter.
\<close>

definition deleteFile :: "path \<Rightarrow> string + unit \<Rightarrow> string + WorkspaceEntry list \<Rightarrow> ReconcilerState
    \<Rightarrow> (string + bool) \<times> ReconcilerState" where
  "deleteFile filePath resp tree_resp s =
     (case resp of
        Inl e \<Rightarrow> (Inl e, s)
      | Inr u \<Rightarrow>
          (Inr True,
           loadFileTree tree_resp
             (s\<lparr>openFiles := filter (\<lambda>f. f \<noteq> filePath) (openFiles s),
                fileContents := (fileContents s)(filePath := None),
                activeFile :=
                  (if activeFile s = Some filePath
                   then js_or (js_index (openFiles s) 0) None
                   else activeFile s)\<rparr>)))"

text \<open>\<open>renameFile\<close>: the cache entry moves only under \<open>if (fileContents[oldPath])\<close>.\<close>

definition renameFile :: "path \<Rightarrow> path \<Rightarrow> string + unit \<Rightarrow> string + WorkspaceEntry list \<Rightarrow> ReconcilerState
    \<Rightarrow> (string + bool) \<times> ReconcilerState" where
  "renameFile oldPath newPath resp tree_resp s =
     (case resp of
        Inl e \<Rightarrow> (Inl e, s)
      | Inr u \<Rightarrow>
          (Inr True,
           loadFileTree tree_resp
             (s\<lparr>openFiles := map (\<lambda>f. if f = oldPath then newPath else f) (openFiles s),
                fileContents :=
                  (if truthy (fileContents s oldPath)
                   then ((fileContents s)(newPath := fileContents s oldPath))(oldPath := None)
                   else fileContents s),
                activeFile :=
                  (if activeFile s = Some oldPath then Some newPath else activeFile s)\<rparr>)))"

text \<open>\<open>openFile\<close>: the two state updates are queued before the fetch is awaited.\<close>

definition openFile :: "path \<Rightarrow> string + string \<Rightarrow> ReconcilerState \<Rightarrow> (string + unit) \<times> ReconcilerState" where
  "openFile filePath load_resp s =
     (let s1 = (if filePath \<notin> set (openFiles s)
                then s\<lparr>openFiles := openFiles s @ [filePath]\<rparr> else s);
          s2 = s1\<lparr>activeFile := Some filePath\<rparr>
      in if \<not> truthy (fileContents s filePath)
         then (case loadFile filePath load_resp s2 of
                 (Inl e, s3) \<Rightarrow> (Inl e, s3)
               | (Inr c, s3) \<Rightarrow> (Inr (), s3))
         else (Inr (), s2))"

definition closeFile :: "path \<Rightarrow> ReconcilerState \<Rightarrow> ReconcilerState" where
  "closeFile filePath s =
     s\<lparr>openFiles := filter (\<lambda>f. f \<noteq> filePath) (openFiles s),
       activeFile :=
         (if activeFile s = Some filePath
          then (let index = indexOf (openFiles s) filePath
                in js_or (js_or (js_index (openFiles s) (index - 1))
                                (js_index (openFiles s) (index + 1))) None)
          else activeFile s)\<rparr>"

definition updateFileContent :: "path \<Rightarrow> string \<Rightarrow> ReconcilerState \<Rightarrow> ReconcilerState" where
  "updateFileContent filePath content s = s\<lparr>fileContents := (fileContents s)(filePath \<mapsto> content)\<rparr>"

text \<open>
  \<open>websocket.onmessage\<close>: what the handler asks for. \<open>fc\<close> is the \<open>fileContents\<close> the
  handler's closure holds. \<open>loadFile\<close> and \<open>loadFileTree\<close> are started, not awaited.
  Other message types (\<open>connected\<close>, \<open>pong\<close>, \<open>subscribed\<close>) match no \<open>case\<close>.
\<close>

datatype fetch_request = ReqLoadFile path | ReqLoadFileTree

fun websocket_onmessage :: "(path \<rightharpoonup> string) \<Rightarrow> server_message \<Rightarrow> fetch_request list" where
  "websocket_onmessage fc (FileChanged p) = (if truthy (fc p) then [ReqLoadFile p] else [])"
| "websocket_onmessage fc (FileAdded p) = [ReqLoadFileTree]"
| "websocket_onmessage fc (FileDeleted p) = [ReqLoadFileTree]"
| "websocket_onmessage fc m = []"

text \<open>
  The handler is installed by \<open>useEffect(..., [])\<close>, which runs once, after the first
  render: the \<open>fileContents\<close> in its closure is the first render's, the initial state's.
\<close>

definition mounted_onmessage :: "server_message \<Rightarrow> fetch_request list" where
  "mounted_onmessage m = websocket_onmessage (fileContents initial_state) m"

text \<open>
  The state once the requests of a handler run have been answered: \<open>read\<close> answers
  \<open>/api/files/read\<close> for a path, \<open>tree\<close> answers \<open>/api/files/tree\<close>.
\<close>

fun answer :: "(path \<Rightarrow> string + string) \<Rightarrow> string + WorkspaceEntry list \<Rightarrow> fetch_request
    \<Rightarrow> ReconcilerState \<Rightarrow> ReconcilerState" where
  "answer read tree (ReqLoadFile p) s = snd (loadFile p (read p) s)"
| "answer read tree ReqLoadFileTree s = loadFileTree tree s"

definition reconcile :: "(path \<rightharpoonup> string) \<Rightarrow> (path \<Rightarrow> string + string) \<Rightarrow> string + WorkspaceEntry list
    \<Rightarrow> server_message \<Rightarrow> ReconcilerState \<Rightarrow> ReconcilerState" where
  "reconcile fc read tree m s = fold (answer read tree) (websocket_onmessage fc m) s"

text \<open>The invariant of the spec's data model: \<open>activeFile\<close> is none or a member of \<open>openFiles\<close>.\<close>

definition active_in_open :: "ReconcilerState \<Rightarrow> bool" where
  "active_in_open s = (case activeFile s of None \<Rightarrow> True | Some p \<Rightarrow> p \<in> set (openFiles s))"

text \<open>
  The last entry of a list of paths as \<open>xs[xs.length - 1] || null\<close> reads it: none for the
  empty list, and none for an empty-string entry.
\<close>

definition last_or_none :: "path list \<Rightarrow> path option" where
  "last_or_none xs = (if xs = [] then None else js_or (Some (last xs)) None)"

section \<open>Paths (Node's \<open>path\<close> module, POSIX)\<close>

text \<open>
  The handlers call \<open>path.join\<close>, \<open>path.dirname\<close> and \<open>path.relative\<close> of Node's
  standard library and \<open>String.prototype.startsWith\<close>. They are modelled after Node's
  own POSIX implementation: \<open>join\<close> glues its non-empty arguments with \<open>/\<close> and
  normalises the result, dropping empty and \<open>.\<close> segments and resolving \<open>..\<close> against
  the segment before it.
\<close>

text \<open>The segments between the slashes of a path, as \<open>s.split('/')\<close> gives them.\<close>

fun split_slash :: "string \<Rightarrow> string list" where
  "split_slash [] = [[]]"
| "split_slash (c # cs) =
     (if c = CHR ''/'' then [] # split_slash cs
      else (case split_slash cs of
              [] \<Rightarrow> [[c]]
            | seg # segs \<Rightarrow> (c # seg) # segs))"

fun join_slash :: "string list \<Rightarrow> string" where
  "join_slash [] = []"
| "join_slash [s] = s"
| "join_slash (s # t # ts) = s @ ''/'' @ join_slash (t # ts)"

text \<open>
  \<open>normalizeString(path, allowAboveRoot)\<close>, on the segments: \<open>acc\<close> holds the segments
  kept so far, the last one first. A \<open>..\<close> removes the segment before it; with nothing
  to remove (or another \<open>..\<close> before it) it is kept when \<open>allowAboveRoot\<close> and dropped
  otherwise.
\<close>

fun normalize_segments :: "bool \<Rightarrow> string list \<Rightarrow> string list \<Rightarrow> string list" where
  "normalize_segments allowAboveRoot acc [] = rev acc"
| "normalize_segments allowAboveRoot acc (seg # segs) =
     (if seg = [] \<or> seg = ''.'' then normalize_segments allowAboveRoot acc segs
      else if seg = ''..'' then
        (case acc of
           [] \<Rightarrow> normalize_segments allowAboveRoot (if allowAboveRoot then [''..''] else []) segs
         | lastSeg # rest \<Rightarrow>
             if lastSeg = ''..'' then normalize_segments allowAboveRoot (if allowAboveRoot then ''..'' # acc else acc) segs
             else normalize_segments allowAboveRoot rest segs)
      else normalize_segments allowAboveRoot (seg # acc) segs)"

text \<open>\<open>path.normalize\<close>.\<close>

definition path_normalize :: "path \<Rightarrow> path" where
  "path_normalize p =
     (if p = [] then ''.''
      else
        let isAbsolute = (hd p = CHR ''/'');
            trailingSeparator = (last p = CHR ''/'');
            q = join_slash (normalize_segments (\<not> isAbsolute) [] (split_slash p))
        in if q = [] then (if isAbsolute then ''/'' else if trailingSeparator then ''./'' else ''.'')
           else (if isAbsolute then ''/'' else []) @ q @ (if trailingSeparator then ''/'' else []))"

text \<open>\<open>path.join(a, b)\<close>.\<close>

definition path_join :: "path \<Rightarrow> path \<Rightarrow> path" where
  "path_join a b = path_normalize (if a = [] then b else if b = [] then a else a @ ''/'' @ b)"

text \<open>
  \<open>path.dirname\<close>: scanning from the end and never looking at the first character, skip
  the trailing slashes and the last segment; what stands before the slash found is the
  result. \<open>dirname_scan\<close> takes the path without its first character, reversed.
\<close>

fun dirname_scan :: "bool \<Rightarrow> string \<Rightarrow> string option" where
  "dirname_scan matchedSlash [] = None"
| "dirname_scan matchedSlash (c # cs) =
     (if c = CHR ''/'' then (if matchedSlash then dirname_scan True cs else Some (rev cs))
      else dirname_scan False cs)"

definition dirname :: "path \<Rightarrow> path" where
  "dirname p =
     (case p of
        [] \<Rightarrow> ''.''
      | c # cs \<Rightarrow>
          (case dirname_scan True (rev cs) of
             None \<Rightarrow> (if c = CHR ''/'' then ''/'' else ''.'')
           | Some front \<Rightarrow> (if c = CHR ''/'' \<and> front = [] then ''//'' else c # front)))"

text \<open>The segments of an absolute path, as \<open>path.resolve\<close> leaves them.\<close>

definition abs_segments :: "path \<Rightarrow> string list" where
  "abs_segments p = normalize_segments False [] (split_slash p)"

fun strip_common :: "string list \<Rightarrow> string list \<Rightarrow> string list \<times> string list" where
  "strip_common (a # as) (b # bs) = (if a = b then strip_common as bs else (a # as, b # bs))"
| "strip_common as bs = (as, bs)"

text \<open>
  \<open>path.relative(from, to)\<close> for absolute paths (both are, where the code calls it): one
  \<open>..\<close> for each segment of \<open>from\<close> past the common ones, then the rest of \<open>to\<close>.
\<close>

definition path_relative :: "path \<Rightarrow> path \<Rightarrow> path" where
  "path_relative from_path to_path =
     (case strip_common (abs_segments from_path) (abs_segments to_path) of
        (f, t) \<Rightarrow> join_slash (replicate (length f) ''..'' @ t))"

text \<open>\<open>s.startsWith(w)\<close>: \<open>w\<close> is a prefix of \<open>s\<close>, character by character.\<close>

definition startsWith :: "string \<Rightarrow> string \<Rightarrow> bool" where
  "startsWith s w = prefix w s"

text \<open>
  What the spec means by a resolved path inside the workspace root: the root's segments
  are the first segments of the path's.
\<close>

definition within_workspace :: "path \<Rightarrow> path \<Rightarrow> bool" where
  "within_workspace root full = prefix (abs_segments root) (abs_segments full)"

section \<open>CRUD handlers (the file router)\<close>

text \<open>
  Each handler is run against the workspace store as an oracle: \<open>fs\<close> gives the outcome
  of every \<open>fs/promises\<close> call (\<open>Inl\<close> the rejection's message). A handler returns its
  response and the storage calls it made, in order. \<open>WORKSPACE_DIR\<close> is a parameter: it
  is \<open>path.join(__dirname, '../../workspace')\<close>, an absolute normalised path. A request
  field that may be missing is an \<open>option\<close>.
\<close>

record stats =
  isDirectory :: bool
  st_size :: nat
  st_mtime :: nat

record storage =
  fs_readFile :: "path \<Rightarrow> string + string"
  fs_stat :: "path \<Rightarrow> string + stats"
  fs_mkdir :: "path \<Rightarrow> string + unit"
  fs_writeFile :: "path \<Rightarrow> string \<Rightarrow> string + unit"
  fs_rm :: "path \<Rightarrow> string + unit"
  fs_unlink :: "path \<Rightarrow> string + unit"
  fs_rename :: "path \<Rightarrow> path \<Rightarrow> string + unit"

datatype storage_call =
    ReadFile path
  | Stat path
  | Mkdir path
  | WriteFile path string
  | Rm path
  | Unlink path
  | Rename path path

datatype response =
    Status400 string
  | Status403 string
  | Status500 string
  | ReadResult string path nat nat
  | Success "path list" string

definition read_handler :: "storage \<Rightarrow> path \<Rightarrow> path option \<Rightarrow> response \<times> storage_call list" where
  "read_handler fs WORKSPACE_DIR query_path =
     (if \<not> truthy query_path then (Status400 ''File path is required'', [])
      else
        let filePath = the query_path;
            fullPath = path_join WORKSPACE_DIR filePath
        in if \<not> startsWith fullPath WORKSPACE_DIR then (Status403 ''Access denied'', [])
           else
             (case fs_readFile fs fullPath of
                Inl e \<Rightarrow> (Status500 e, [ReadFile fullPath])
              | Inr content \<Rightarrow>
                  (case fs_stat fs fullPath of
                     Inl e \<Rightarrow> (Status500 e, [ReadFile fullPath, Stat fullPath])
                   | Inr st \<Rightarrow>
                       (ReadResult content filePath (st_size st) (st_mtime st),
                        [ReadFile fullPath, Stat fullPath]))))"

definition write_handler :: "storage \<Rightarrow> path \<Rightarrow> path option \<Rightarrow> string option
    \<Rightarrow> response \<times> storage_call list" where
  "write_handler fs WORKSPACE_DIR body_path body_content =
     (if \<not> truthy body_path \<or> body_content = None
      then (Status400 ''File path and content are required'', [])
      else
        let filePath = the body_path;
            content = the body_content;
            fullPath = path_join WORKSPACE_DIR filePath
        in if \<not> startsWith fullPath WORKSPACE_DIR then (Status403 ''Access denied'', [])
           else
             (case fs_mkdir fs (dirname fullPath) of
                Inl e \<Rightarrow> (Status500 e, [Mkdir (dirname fullPath)])
              | Inr u \<Rightarrow>
                  (case fs_writeFile fs fullPath content of
                     Inl e \<Rightarrow> (Status500 e, [Mkdir (dirname fullPath), WriteFile fullPath content])
                   | Inr u \<Rightarrow>
                       (Success [filePath] ''File saved successfully'',
                        [Mkdir (dirname fullPath), WriteFile fullPath content]))))"

text \<open>\<open>create\<close>: \<open>content\<close> defaults to the empty string.\<close>

definition create_handler :: "storage \<Rightarrow> path \<Rightarrow> path option \<Rightarrow> string option \<Rightarrow> string option
    \<Rightarrow> response \<times> storage_call list" where
  "create_handler fs WORKSPACE_DIR body_path body_type body_content =
     (if \<not> truthy body_path \<or> \<not> truthy body_type
      then (Status400 ''File path and type are required'', [])
      else
        let filePath = the body_path;
            content = (case body_content of None \<Rightarrow> [] | Some c \<Rightarrow> c);
            fullPath = path_join WORKSPACE_DIR filePath
        in if \<not> startsWith fullPath WORKSPACE_DIR then (Status403 ''Access denied'', [])
           else if body_type = Some ''directory'' then
             (case fs_mkdir fs fullPath of
                Inl e \<Rightarrow> (Status500 e, [Mkdir fullPath])
              | Inr u \<Rightarrow> (Success [filePath] ''Directory created successfully'', [Mkdir fullPath]))
           else
             (case fs_mkdir fs (dirname fullPath) of
                Inl e \<Rightarrow> (Status500 e, [Mkdir (dirname fullPath)])
              | Inr u \<Rightarrow>
                  (case fs_writeFile fs fullPath content of
                     Inl e \<Rightarrow> (Status500 e, [Mkdir (dirname fullPath), WriteFile fullPath content])
                   | Inr u \<Rightarrow>
                       (Success [filePath] ''File created successfully'',
                        [Mkdir (dirname fullPath), WriteFile fullPath content]))))"

definition delete_handler :: "storage \<Rightarrow> path \<Rightarrow> path option \<Rightarrow> response \<times> storage_call list" where
  "delete_handler fs WORKSPACE_DIR query_path =
     (if \<not> truthy query_path then (Status400 ''File path is required'', [])
      else
        let filePath = the query_path;
            fullPath = path_join WORKSPACE_DIR filePath
        in if \<not> startsWith fullPath WORKSPACE_DIR then (Status403 ''Access denied'', [])
           else
             (case fs_stat fs fullPath of
                Inl e \<Rightarrow> (Status500 e, [Stat fullPath])
              | Inr st \<Rightarrow>
                  (if isDirectory st then
                     (case fs_rm fs fullPath of
                        Inl e \<Rightarrow> (Status500 e, [Stat fullPath, Rm fullPath])
                      | Inr u \<Rightarrow> (Success [filePath] ''Deleted successfully'', [Stat fullPath, Rm fullPath]))
                   else
                     (case fs_unlink fs fullPath of
                        Inl e \<Rightarrow> (Status500 e, [Stat fullPath, Unlink fullPath])
                      | Inr u \<Rightarrow>
                          (Success [filePath] ''Deleted successfully'', [Stat fullPath, Unlink fullPath])))))"

definition rename_handler :: "storage \<Rightarrow> path \<Rightarrow> path option \<Rightarrow> path option
    \<Rightarrow> response \<times> storage_call list" where
  "rename_handler fs WORKSPACE_DIR body_oldPath body_newPath =
     (if \<not> truthy body_oldPath \<or> \<not> truthy body_newPath
      then (Status400 ''Old path and new path are required'', [])
      else
        let oldPath = the body_oldPath;
            newPath = the body_newPath;
            fullOldPath = path_join WORKSPACE_DIR oldPath;
            fullNewPath = path_join WORKSPACE_DIR newPath
        in if \<not> startsWith fullOldPath WORKSPACE_DIR \<or> \<not> startsWith fullNewPath WORKSPACE_DIR
           then (Status403 ''Access denied'', [])
           else
             (case fs_rename fs fullOldPath fullNewPath of
                Inl e \<Rightarrow> (Status500 e, [Rename fullOldPath fullNewPath])
              | Inr u \<Rightarrow>
                  (Success [oldPath, newPath] ''Renamed successfully'',
                   [Rename fullOldPath fullNewPath])))"

text \<open>A store in which every call succeeds, for examples.\<close>

definition accepting_store :: storage where
  "accepting_store =
     \<lparr>fs_readFile = (\<lambda>p. Inr []),
      fs_stat = (\<lambda>p. Inr \<lparr>isDirectory = False, st_size = 0, st_mtime = 0\<rparr>),
      fs_mkdir = (\<lambda>p. Inr ()), fs_writeFile = (\<lambda>p c. Inr ()), fs_rm = (\<lambda>p. Inr ()),
      fs_unlink = (\<lambda>p. Inr ()), fs_rename = (\<lambda>p q. Inr ())\<rparr>"

section \<open>Tree listing (\<open>buildFileTree\<close>)\<close>

text \<open>
  The workspace store as the listing reads it: what \<open>fs.readdir\<close> returns for a
  directory, in the order it returns it, with what \<open>fs.stat\<close> says of each entry (a file's
  size and modification time, or a directory and its own entries). The store is a finite
  tree: symbolic links that close a cycle, and calls that fail, are outside the model.
\<close>

datatype fs_node =
    FsFile string nat nat
  | FsDir string "fs_node list"

fun node_name :: "fs_node \<Rightarrow> string" where
  "node_name (FsFile item sz mt) = item"
| "node_name (FsDir item items) = item"

text \<open>
  The comparator handed to \<open>tree.sort\<close>. \<open>localeCompare\<close> is
  \<open>String.prototype.localeCompare\<close>, the host's locale collation: it is not code of the
  repository and depends on the host's locale data, so it is a parameter.
\<close>

definition compare_entries :: "(string \<Rightarrow> string \<Rightarrow> int) \<Rightarrow> WorkspaceEntry \<Rightarrow> WorkspaceEntry \<Rightarrow> int" where
  "compare_entries localeCompare a b =
     (if type_of a = type_of b then localeCompare (entry_name a) (entry_name b)
      else if type_of a = TDirectory then - 1 else 1)"

text \<open>
  \<open>Array.prototype.sort\<close> with a comparator is a stable sort; for a consistent
  comparator every stable sort returns the same array. It is modelled by insertion from
  the right: an element goes before the first element it does not compare greater than.
\<close>

fun insert_sorted :: "('a \<Rightarrow> 'a \<Rightarrow> int) \<Rightarrow> 'a \<Rightarrow> 'a list \<Rightarrow> 'a list" where
  "insert_sorted cmp x [] = [x]"
| "insert_sorted cmp x (y # ys) = (if cmp x y \<le> 0 then x # y # ys else y # insert_sorted cmp x ys)"

definition array_sort :: "('a \<Rightarrow> 'a \<Rightarrow> int) \<Rightarrow> 'a list \<Rightarrow> 'a list" where
  "array_sort cmp xs = foldr (insert_sorted cmp) xs []"

fun build_entry :: "(string \<Rightarrow> string \<Rightarrow> int) \<Rightarrow> path \<Rightarrow> fs_node \<Rightarrow> WorkspaceEntry" where
  "build_entry localeCompare basePath (FsFile item sz mt) =
     FileEntry item (path_join basePath item) sz mt"
| "build_entry localeCompare basePath (FsDir item items) =
     DirectoryEntry item (path_join basePath item)
       (array_sort (compare_entries localeCompare)
          (map (build_entry localeCompare (path_join basePath item)) items))"

definition buildFileTree :: "(string \<Rightarrow> string \<Rightarrow> int) \<Rightarrow> path \<Rightarrow> fs_node list \<Rightarrow> WorkspaceEntry list" where
  "buildFileTree localeCompare basePath items =
     array_sort (compare_entries localeCompare) (map (build_entry localeCompare basePath) items)"

text \<open>A property of one level of a listing holds at every level of it.\<close>

fun every_level :: "(WorkspaceEntry list \<Rightarrow> bool) \<Rightarrow> WorkspaceEntry list \<Rightarrow> bool"
  and every_level_in :: "(WorkspaceEntry list \<Rightarrow> bool) \<Rightarrow> WorkspaceEntry \<Rightarrow> bool" where
  "every_level P es = (P es \<and> list_all (every_level_in P) es)"
| "every_level_in P (FileEntry n p s m) = True"
| "every_level_in P (DirectoryEntry n p cs) = every_level P cs"

text \<open>Directories before files: no file stands before a directory.\<close>

definition directories_first :: "WorkspaceEntry list \<Rightarrow> bool" where
  "directories_first es = sorted_wrt (\<lambda>a b. \<not> (type_of a = TFile \<and> type_of b = TDirectory)) es"

text \<open>Entries of the same type in the order of a comparator on names.\<close>

definition names_ordered :: "(string \<Rightarrow> string \<Rightarrow> int) \<Rightarrow> WorkspaceEntry list \<Rightarrow> bool" where
  "names_ordered cmp es =
     sorted_wrt (\<lambda>a b. type_of a \<noteq> type_of b \<or> cmp (entry_name a) (entry_name b) \<le> 0) es"

text \<open>
  Case-sensitive lexicographic comparison: strings compared character by character, by
  character code, so every upper-case ASCII letter is before every lower-case one.
\<close>

definition lexicographic_compare :: "string \<Rightarrow> string \<Rightarrow> int" where
  "lexicographic_compare a b = (if a < b then - 1 else if a = b then 0 else 1)"

text \<open>
  A collation as \<open>localeCompare\<close> computes it under the default (root) locale data, on
  ASCII letters: strings are compared letter by letter regardless of case first, and only
  if that finds no difference by case, lower case first. On other characters this
  simplified comparator is not the library's.
\<close>

definition fold_case :: "char \<Rightarrow> char" where
  "fold_case c =
     (if CHR ''A'' \<le> c \<and> c \<le> CHR ''Z'' then char_of (of_char c + (32::nat)) else c)"

definition is_upper :: "char \<Rightarrow> bool" where
  "is_upper c = (CHR ''A'' \<le> c \<and> c \<le> CHR ''Z'')"

definition collation_key :: "string \<Rightarrow> string \<times> bool list" where
  "collation_key s = (map fold_case s, map is_upper s)"

definition collation_compare :: "string \<Rightarrow> string \<Rightarrow> int" where
  "collation_compare a b =
     (if collation_key a < collation_key b then - 1
      else if collation_key a = collation_key b then 0 else 1)"

text \<open>All the paths of a listing, and of the store below a base path.\<close>

fun entry_paths :: "WorkspaceEntry \<Rightarrow> path list" where
  "entry_paths (FileEntry n p s m) = [p]"
| "entry_paths (DirectoryEntry n p cs) = p # concat (map entry_paths cs)"

fun node_paths :: "path \<Rightarrow> fs_node \<Rightarrow> path list" where
  "node_paths basePath (FsFile item sz mt) = [path_join basePath item]"
| "node_paths basePath (FsDir item items) =
     path_join basePath item # concat (map (node_paths (path_join basePath item)) items)"

section \<open>Change Watcher\<close>

text \<open>
  The pattern given as \<open>ignored\<close>, under the comment "ignore dotfiles":
  \<open>/(^|[\/\\])\../\<close>. It matches a string that has, at its start or right after a slash
  or backslash, a dot followed by one more character; in a JavaScript pattern without
  the \<open>s\<close> flag that character is any code unit but a line terminator: line feed,
  carriage return, U+2028 and U+2029. The paths of this model are 8-bit strings; the
  pattern reads each character as its code unit. \<open>at_start\<close> says whether the position
  read is the start of the string or follows a separator.
\<close>

definition line_terminator :: "nat \<Rightarrow> bool" where
  "line_terminator u = (u = 0x0A \<or> u = 0x0D \<or> u = 0x2028 \<or> u = 0x2029)"

fun ignored_from :: "bool \<Rightarrow> string \<Rightarrow> bool" where
  "ignored_from at_start [] = False"
| "ignored_from at_start (c # cs) =
     ((at_start \<and> c = CHR ''.'' \<and> (case cs of [] \<Rightarrow> False | d # ds \<Rightarrow> \<not> line_terminator (of_char d)))
      \<or> ignored_from (c = CHR ''/'' \<or> c = CHR 0x5C) cs)"

definition ignored_pattern :: "path \<Rightarrow> bool" where
  "ignored_pattern p = ignored_from True p"

text \<open>
  chokidar is a library outside the repository. What it does with the raw notifications
  of the file system (it may turn an unlink closely followed by an add into one change,
  and it throttles repeated changes) is not modelled: the input here is the stream of
  events chokidar has to report for the watched tree after that work, each with its
  name (\<open>add\<close>, \<open>change\<close>, \<open>unlink\<close> for files, \<open>addDir\<close>, \<open>unlinkDir\<close> for
  directories), its absolute path, and whether it comes from the scan of what exists
  when watching starts. By its documented contract chokidar drops from that stream the
  events whose path the \<open>ignored\<close> option matches and, under \<open>ignoreInitial\<close>, those
  of the initial scan, and calls the listeners with the rest.
\<close>

datatype chokidar_event = Add | AddDir | Change | Unlink | UnlinkDir

record notification =
  kind :: chokidar_event
  npath :: path
  initial_scan :: bool

record watch_options =
  ignored :: "path \<Rightarrow> bool"
  persistent :: bool
  ignoreInitial :: bool

definition chokidar_emits :: "watch_options \<Rightarrow> notification \<Rightarrow> (chokidar_event \<times> path) list" where
  "chokidar_emits opts n =
     (if ignored opts (npath n) then []
      else if initial_scan n \<and> ignoreInitial opts then []
      else [(kind n, npath n)])"

text \<open>The options of \<open>chokidar.watch\<close> and the three listeners of the source.\<close>

definition watcher_options :: watch_options where
  "watcher_options = \<lparr>ignored = ignored_pattern, persistent = True, ignoreInitial = True\<rparr>"

fun watcher_on :: "path \<Rightarrow> chokidar_event \<times> path \<Rightarrow> server_message list" where
  "watcher_on WORKSPACE_DIR (Add, filePath) = [FileAdded (path_relative WORKSPACE_DIR filePath)]"
| "watcher_on WORKSPACE_DIR (Change, filePath) = [FileChanged (path_relative WORKSPACE_DIR filePath)]"
| "watcher_on WORKSPACE_DIR (Unlink, filePath) = [FileDeleted (path_relative WORKSPACE_DIR filePath)]"
| "watcher_on WORKSPACE_DIR (AddDir, filePath) = []"
| "watcher_on WORKSPACE_DIR (UnlinkDir, filePath) = []"

text \<open>The messages the Watcher hands to \<open>broadcast\<close> for one event of the stream.\<close>

definition watcher :: "path \<Rightarrow> notification \<Rightarrow> server_message list" where
  "watcher WORKSPACE_DIR n = concat (map (watcher_on WORKSPACE_DIR) (chokidar_emits watcher_options n))"





text \<open>
  The paths the statements about hidden and visible entries are made for. A printable
  ASCII character has a code from 32 to 126. A path is visible when it has no backslash
  and none of its segments, those of the workspace root included, begins with a dot.
\<close>

definition printable_ascii :: "char \<Rightarrow> bool" where
  "printable_ascii c = (32 \<le> (of_char c :: nat) \<and> (of_char c :: nat) \<le> 126)"





section \<open>Fan-out Hub (\<open>setupWebSocket\<close>)\<close>

text \<open>
  A session is a \<open>ws\<close> socket object, named by a number. \<open>clients\<close> is a JavaScript
  \<open>Set\<close>: it holds an object once and \<open>forEach\<close> visits in insertion order, so it is a
  list without repetition. What the sockets are and do is the environment's: the
  \<open>readyState\<close> of each (\<open>1\<close> is OPEN, \<open>2\<close> CLOSING, \<open>3\<close> CLOSED), whether a call of its
  \<open>send\<close> returns or throws, and the clock \<open>Date.now()\<close>.
\<close>

type_synonym session = nat

record env =
  readyState :: "session \<Rightarrow> nat"
  send_returns :: "session \<Rightarrow> bool"
  now :: nat

definition set_add :: "'a \<Rightarrow> 'a list \<Rightarrow> 'a list" where
  "set_add x xs = (if x \<in> set xs then xs else xs @ [x])"

definition set_delete :: "'a \<Rightarrow> 'a list \<Rightarrow> 'a list" where
  "set_delete x xs = filter (\<lambda>y. y \<noteq> x) xs"

text \<open>
  What a handler does besides changing \<open>clients\<close>: \<open>Send c m\<close> is a call \<open>c.send(m)\<close>
  that returned, \<open>SendThrew c m\<close> one that threw; \<open>Log\<close> is \<open>console.log\<close>, \<open>LogError\<close> is
  \<open>console.error\<close>. \<open>uncaught\<close> says that an exception left the handler.
\<close>

datatype hub_effect =
    Send session server_message
  | SendThrew session server_message
  | Log string
  | LogError string

record hub_result =
  clients_after :: "session list"
  effects :: "hub_effect list"
  uncaught :: bool

definition ws_send :: "env \<Rightarrow> session \<Rightarrow> server_message \<Rightarrow> hub_effect" where
  "ws_send e c m = (if send_returns e c then Send c m else SendThrew c m)"

text \<open>
  \<open>broadcast\<close>: \<open>clients.forEach\<close> with no \<open>try\<close> around \<open>client.send\<close>; an exception
  ends the loop and leaves \<open>broadcast\<close>.
\<close>

fun forEach_send :: "env \<Rightarrow> server_message \<Rightarrow> session list \<Rightarrow> hub_effect list \<times> bool" where
  "forEach_send e m [] = ([], False)"
| "forEach_send e m (client # rest) =
     (if readyState e client = 1
      then (if send_returns e client
            then (case forEach_send e m rest of (fx, threw) \<Rightarrow> (Send client m # fx, threw))
            else ([SendThrew client m], True))
      else forEach_send e m rest)"

definition broadcast :: "env \<Rightarrow> server_message \<Rightarrow> session list \<Rightarrow> hub_result" where
  "broadcast e m clients =
     (case forEach_send e m clients of
        (fx, threw) \<Rightarrow> \<lparr>clients_after = clients, effects = fx, uncaught = threw\<rparr>)"

text \<open>\<open>wss.on('connection')\<close>: the session is added and greeted.\<close>

definition on_connection :: "env \<Rightarrow> session \<Rightarrow> session list \<Rightarrow> hub_result" where
  "on_connection e ws clients =
     \<lparr>clients_after = set_add ws clients,
      effects = [Log ''WebSocket client connected'',
                 ws_send e ws (Connected ''WebSocket connection established'' (now e))],
      uncaught = (\<not> send_returns e ws)\<rparr>"

definition on_close :: "session \<Rightarrow> session list \<Rightarrow> hub_result" where
  "on_close ws clients =
     \<lparr>clients_after = set_delete ws clients,
      effects = [Log ''WebSocket client disconnected''],
      uncaught = False\<rparr>"

definition on_error :: "session \<Rightarrow> session list \<Rightarrow> hub_result" where
  "on_error ws clients =
     \<lparr>clients_after = set_delete ws clients,
      effects = [LogError ''WebSocket error:''],
      uncaught = False\<rparr>"

text \<open>
  \<open>data.type\<close> and \<open>data.channel\<close>: a property of a parsed value. An object has its own
  properties; a number, string, boolean or array has neither of the two. (\<open>null\<close> has
  no properties at all: reading one throws, see \<open>on_message\<close>.)
\<close>

fun property :: "json \<Rightarrow> string \<Rightarrow> json option" where
  "property (JObject kvs) k = map_of kvs k"
| "property v k = None"

text \<open>
  \<open>ws.on('message')\<close>. \<open>parsed\<close> is what \<open>JSON.parse(message)\<close> gives: \<open>None\<close> when it
  throws a \<open>SyntaxError\<close>. The whole body is inside \<open>try\<close>: a syntax error, the
  \<open>TypeError\<close> of \<open>null.type\<close> and a throwing \<open>send\<close> all end in the \<open>catch\<close>, which
  logs. \<open>switch\<close> compares with \<open>===\<close>, so only the strings \<open>ping\<close> and \<open>subscribe\<close>
  match.
\<close>

definition reply :: "env \<Rightarrow> session \<Rightarrow> server_message \<Rightarrow> hub_effect list" where
  "reply e ws m =
     (if send_returns e ws then [Send ws m]
      else [SendThrew ws m, LogError ''WebSocket message error:''])"

definition on_message :: "env \<Rightarrow> session \<Rightarrow> json option \<Rightarrow> session list \<Rightarrow> hub_result" where
  "on_message e ws parsed clients =
     \<lparr>clients_after = clients,
      effects =
        (case parsed of
           None \<Rightarrow> [LogError ''WebSocket message error:'']
         | Some JNull \<Rightarrow> [LogError ''WebSocket message error:'']
         | Some data \<Rightarrow>
             (if property data ''type'' = Some (JString ''ping'') then reply e ws (Pong (now e))
              else if property data ''type'' = Some (JString ''subscribe'')
                then reply e ws (Subscribed (property data ''channel''))
              else [Log ''Unknown message type:''])),
      uncaught = False\<rparr>"

text \<open>The calls of \<open>send\<close> among the effects, returned or thrown, in order.\<close>

fun send_calls :: "hub_effect list \<Rightarrow> (session \<times> server_message) list" where
  "send_calls [] = []"
| "send_calls (Send c m # fx) = (c, m) # send_calls fx"
| "send_calls (SendThrew c m # fx) = (c, m) # send_calls fx"
| "send_calls (x # fx) = send_calls fx"

fun logged :: "hub_effect list \<Rightarrow> bool" where
  "logged [] = False"
| "logged (Log s # fx) = True"
| "logged (LogError s # fx) = True"
| "logged (x # fx) = logged fx"

section \<open>Reconciler: theorems\<close>

lemma truthy_Some [simp]: "truthy (Some s) = (s \<noteq> [])"
  by (simp add: truthy_def)

lemma truthy_None [simp]: "\<not> truthy None"
  by (simp add: truthy_def)

lemma js_or_None_right: "js_or a None = (if truthy a then a else None)"
  by (simp add: js_or_def)

text \<open>
  C8. \<open>renameFile\<close> is claimed to move the cache entry from the old path to the new one
  for every cached content, the empty string included. The code moves it under
  \<open>if (fileContents[oldPath])\<close>, and the empty string is falsy: with an empty file cached
  under \<open>a.txt\<close>, a successful rename to \<open>b.txt\<close> renames the tab and the active file
  and leaves the cache entry under \<open>a.txt\<close>, with nothing under \<open>b.txt\<close>.
\<close>

theorem renameFile_empty_content_not_moved:
  "snd (renameFile ''a.txt'' ''b.txt'' (Inr ()) (Inl ''offline'')
         \<lparr>fileTree = [], openFiles = [''a.txt''], activeFile = Some ''a.txt'',
          fileContents = [''a.txt'' \<mapsto> ''''], loading = False\<rparr>)
   = \<lparr>fileTree = [], openFiles = [''b.txt''], activeFile = Some ''b.txt'',
      fileContents = [''a.txt'' \<mapsto> ''''], loading = False\<rparr>"
  by (simp add: renameFile_def loadFileTree_def)

text \<open>
  C2. The invariant \<open>activeFile \<in> openFiles \<union> {none}\<close> is claimed to be kept by every
  operation, \<open>deleteFile\<close> reassigning \<open>activeFile\<close> to a remaining open file.
  \<open>deleteFile\<close> filters the deleted path out of \<open>openFiles\<close> and then sets
  \<open>activeFile\<close> to \<open>openFiles[0] || null\<close>, where \<open>openFiles\<close> is still the list
  before the filter. When the deleted file is the first tab and is active, \<open>activeFile\<close>
  is set to the deleted path itself: the invariant held before and does not hold after.
\<close>

theorem deleteFile_first_tab_breaks_invariant:
  "active_in_open
     \<lparr>fileTree = [], openFiles = [''a.js'', ''b.js''], activeFile = Some ''a.js'',
      fileContents = [''a.js'' \<mapsto> ''x''], loading = False\<rparr>
   \<and> snd (deleteFile ''a.js'' (Inr ()) (Inl ''offline'')
         \<lparr>fileTree = [], openFiles = [''a.js'', ''b.js''], activeFile = Some ''a.js'',
          fileContents = [''a.js'' \<mapsto> ''x''], loading = False\<rparr>)
     = \<lparr>fileTree = [], openFiles = [''b.js''], activeFile = Some ''a.js'',
        fileContents = Map.empty, loading = False\<rparr>
   \<and> \<not> active_in_open
       (snd (deleteFile ''a.js'' (Inr ()) (Inl ''offline'')
         \<lparr>fileTree = [], openFiles = [''a.js'', ''b.js''], activeFile = Some ''a.js'',
          fileContents = [''a.js'' \<mapsto> ''x''], loading = False\<rparr>))"
  by (simp add: deleteFile_def loadFileTree_def active_in_open_def js_index_def js_or_def)

text \<open>
  C7. A \<open>changed\<close> event for a path present in \<open>fileContents\<close> is claimed to cause a
  re-fetch that overwrites the entry. The handler tests \<open>if (fileContents[data.path])\<close>.
  First and second conjunct: even with the current cache in the handler's closure, a path
  cached with empty content asks for nothing, and the state stays as it was although the
  server now has other content. Third: the handler as installed holds the first render's
  empty cache, so it asks for nothing on a \<open>changed\<close> event. The other half of the
  claim, the tree re-fetch on \<open>added\<close> and \<open>deleted\<close>, holds.
\<close>

theorem onmessage_changed_no_refetch:
  "websocket_onmessage [''notes.txt'' \<mapsto> ''''] (FileChanged ''notes.txt'') = []
   \<and> reconcile [''notes.txt'' \<mapsto> ''''] (\<lambda>p. Inr ''new text'') (Inr [])
        (FileChanged ''notes.txt'')
        \<lparr>fileTree = [], openFiles = [''notes.txt''], activeFile = Some ''notes.txt'',
         fileContents = [''notes.txt'' \<mapsto> ''''], loading = False\<rparr>
     = \<lparr>fileTree = [], openFiles = [''notes.txt''], activeFile = Some ''notes.txt'',
        fileContents = [''notes.txt'' \<mapsto> ''''], loading = False\<rparr>
   \<and> mounted_onmessage (FileChanged ''src/app.js'') = []"
  by (simp add: reconcile_def mounted_onmessage_def initial_state_def)

lemma onmessage_added_deleted_refetch_tree:
  "websocket_onmessage fc (FileAdded p) = [ReqLoadFileTree]"
  "websocket_onmessage fc (FileDeleted p) = [ReqLoadFileTree]"
  "fileTree (reconcile fc read (Inr t) (FileAdded p) s) = t"
  "fileTree (reconcile fc read (Inr t) (FileDeleted p) s) = t"
  by (simp_all add: reconcile_def loadFileTree_def)

lemma onmessage_changed_truthy_refetch:
  "truthy (fc p) \<Longrightarrow> fileContents (reconcile fc (\<lambda>q. Inr c) tree (FileChanged p) s) p = Some c"
  by (simp add: reconcile_def loadFile_def)

lemma mounted_onmessage_changed: "mounted_onmessage (FileChanged p) = []"
  by (simp add: mounted_onmessage_def initial_state_def)

subsection \<open>\<open>openFile\<close> then \<open>closeFile\<close>\<close>

lemma indexOf_from_append_new:
  "p \<notin> set xs \<Longrightarrow> indexOf_from (xs @ [p]) p i = i + int (length xs)"
  by (induction xs arbitrary: i) auto

lemma indexOf_append_new: "p \<notin> set xs \<Longrightarrow> indexOf (xs @ [p]) p = int (length xs)"
  by (simp add: indexOf_def indexOf_from_append_new)

lemma js_index_before_appended:
  "js_index (xs @ [p]) (int (length xs) - 1) = (if xs = [] then None else Some (last xs))"
proof (cases "xs = []")
  case True
  then show ?thesis by (simp add: js_index_def)
next
  case False
  then have "nat (int (length xs) - 1) = length xs - 1" by simp
  moreover have "(xs @ [p]) ! (length xs - 1) = last xs"
    using False by (simp add: nth_append last_conv_nth)
  moreover have "0 \<le> int (length xs) - 1" using False by (cases xs) auto
  ultimately show ?thesis using False by (simp add: js_index_def)
qed

lemma js_index_after_appended: "js_index (xs @ [p]) (int (length xs) + 1) = None"
  by (simp add: js_index_def)

lemma openFile_state:
  "snd (openFile p r s) =
     (let s2 = (if p \<notin> set (openFiles s) then s\<lparr>openFiles := openFiles s @ [p]\<rparr> else s)
                 \<lparr>activeFile := Some p\<rparr>
      in if truthy (fileContents s p) then s2 else snd (loadFile p r s2))"
  by (auto simp: openFile_def Let_def loadFile_def split: sum.splits prod.splits)

lemma loadFile_keeps_tabs:
  "openFiles (snd (loadFile p r s)) = openFiles s"
  "activeFile (snd (loadFile p r s)) = activeFile s"
  by (simp_all add: loadFile_def split: sum.splits)

lemma openFile_new_tabs:
  "p \<notin> set (openFiles s) \<Longrightarrow> openFiles (snd (openFile p r s)) = openFiles s @ [p]"
  by (simp add: openFile_state Let_def loadFile_keeps_tabs)

lemma openFile_active: "activeFile (snd (openFile p r s)) = Some p"
  by (simp add: openFile_state Let_def loadFile_keeps_tabs)

text \<open>
  C4 as stated fails twice over. With tabs \<open>a, b\<close> and \<open>a\<close> active, opening and closing
  a new path \<open>c\<close> leaves \<open>b\<close> active (the tab before the closed one), not \<open>a\<close>; opening
  and closing the already open \<open>b\<close> removes it from \<open>openFiles\<close>.
\<close>

theorem open_close_not_identity:
  "activeFile (closeFile ''c'' (snd (openFile ''c'' (Inr ''text'')
       \<lparr>fileTree = [], openFiles = [''a'', ''b''], activeFile = Some ''a'',
        fileContents = Map.empty, loading = False\<rparr>))) = Some ''b''
   \<and> openFiles (closeFile ''b'' (snd (openFile ''b'' (Inr ''text'')
       \<lparr>fileTree = [], openFiles = [''a'', ''b''], activeFile = Some ''a'',
        fileContents = Map.empty, loading = False\<rparr>))) = [''a'']"
  by (simp add: openFile_def closeFile_def loadFile_def Let_def indexOf_def js_index_def js_or_def)

text \<open>
  C4, amended. For a path that is not open, \<open>openFile\<close> followed at once by
  \<open>closeFile\<close> restores \<open>openFiles\<close>, whatever the fetch returns, and leaves as
  \<open>activeFile\<close> the last entry of \<open>openFiles\<close> (none when there is none, or when it is
  the empty string): \<open>activeFile\<close> is restored exactly when it was that entry before.
\<close>

theorem open_close_new_path:
  assumes "filePath \<notin> set (openFiles s)"
  shows "openFiles (closeFile filePath (snd (openFile filePath r s))) = openFiles s
       \<and> activeFile (closeFile filePath (snd (openFile filePath r s))) = last_or_none (openFiles s)
       \<and> ((activeFile (closeFile filePath (snd (openFile filePath r s))) = activeFile s)
            = (activeFile s = last_or_none (openFiles s)))"
proof -
  let ?s1 = "snd (openFile filePath r s)"
  have tabs: "openFiles ?s1 = openFiles s @ [filePath]"
    using assms by (rule openFile_new_tabs)
  have act: "activeFile ?s1 = Some filePath"
    by (rule openFile_active)
  have "openFiles (closeFile filePath ?s1) = filter (\<lambda>f. f \<noteq> filePath) (openFiles s @ [filePath])"
    by (simp add: closeFile_def tabs)
  also have "\<dots> = openFiles s"
    using assms by (auto simp: filter_id_conv)
  finally have one: "openFiles (closeFile filePath ?s1) = openFiles s" .
  have idx: "indexOf (openFiles s @ [filePath]) filePath = int (length (openFiles s))"
    using assms by (rule indexOf_append_new)
  have pick: "js_or (js_or (js_index (openFiles s @ [filePath]) (int (length (openFiles s)) - 1))
                         (js_index (openFiles s @ [filePath]) (int (length (openFiles s)) + 1)))
                  None = last_or_none (openFiles s)"
    unfolding js_index_before_appended js_index_after_appended
    by (simp add: last_or_none_def js_or_def)
  have "activeFile (closeFile filePath ?s1) =
          js_or (js_or (js_index (openFiles s @ [filePath]) (int (length (openFiles s)) - 1))
                       (js_index (openFiles s @ [filePath]) (int (length (openFiles s)) + 1)))
                None"
    unfolding closeFile_def Let_def tabs act idx by simp
  with pick have two: "activeFile (closeFile filePath ?s1) = last_or_none (openFiles s)"
    by simp
  from one two show ?thesis by auto
qed

theorem open_close_new_path_witness:
  "openFiles (closeFile ''c'' (snd (openFile ''c'' (Inl ''offline'')
       \<lparr>fileTree = [], openFiles = [''a'', ''b''], activeFile = Some ''b'',
        fileContents = Map.empty, loading = False\<rparr>))) = [''a'', ''b'']
   \<and> activeFile (closeFile ''c'' (snd (openFile ''c'' (Inl ''offline'')
       \<lparr>fileTree = [], openFiles = [''a'', ''b''], activeFile = Some ''b'',
        fileContents = Map.empty, loading = False\<rparr>))) = Some ''b''"
  using open_close_new_path [of "''c''"
      "\<lparr>fileTree = [], openFiles = [''a'', ''b''], activeFile = Some ''b'',
        fileContents = Map.empty, loading = False\<rparr>" "Inl ''offline''"]
  by (simp add: last_or_none_def js_or_def)

text \<open>
  The other half of the amended C4, for every state: when the path is already open,
  \<open>openFile\<close> adds nothing, \<open>closeFile\<close> removes every occurrence of it, and
  \<open>openFiles\<close> is not what it was.
\<close>

lemma openFile_open_tabs:
  "p \<in> set (openFiles s) \<Longrightarrow> openFiles (snd (openFile p r s)) = openFiles s"
  by (simp add: openFile_state Let_def loadFile_keeps_tabs)

lemma open_close_open_path:
  assumes "filePath \<in> set (openFiles s)"
  shows "openFiles (closeFile filePath (snd (openFile filePath r s)))
           = filter (\<lambda>f. f \<noteq> filePath) (openFiles s)"
    and "filePath \<notin> set (openFiles (closeFile filePath (snd (openFile filePath r s))))"
    and "openFiles (closeFile filePath (snd (openFile filePath r s))) \<noteq> openFiles s"
proof -
  show one: "openFiles (closeFile filePath (snd (openFile filePath r s)))
           = filter (\<lambda>f. f \<noteq> filePath) (openFiles s)"
    using assms by (simp add: closeFile_def openFile_open_tabs)
  then show two: "filePath \<notin> set (openFiles (closeFile filePath (snd (openFile filePath r s))))"
    by simp
  from two assms show "openFiles (closeFile filePath (snd (openFile filePath r s))) \<noteq> openFiles s"
    by metis
qed

section \<open>Reconciler: the invariant under the other operations\<close>

lemma active_in_open_iff:
  "active_in_open s = (activeFile s = None \<or> (\<exists>p. activeFile s = Some p \<and> p \<in> set (openFiles s)))"
  by (cases "activeFile s") (simp_all add: active_in_open_def)

lemma loadFileTree_keeps_tabs [simp]:
  "openFiles (loadFileTree t s) = openFiles s"
  "activeFile (loadFileTree t s) = activeFile s"
  by (simp_all add: loadFileTree_def split: sum.splits)

lemma answer_keeps_tabs [simp]:
  "openFiles (answer read t q s) = openFiles s"
  "activeFile (answer read t q s) = activeFile s"
  by (cases q; simp add: loadFile_keeps_tabs)+

lemma fold_answer_keeps_tabs:
  "openFiles (fold (answer read t) qs s) = openFiles s
   \<and> activeFile (fold (answer read t) qs s) = activeFile s"
  by (induction qs arbitrary: s) simp_all

lemma indexOf_from_found:
  "p \<in> set xs \<Longrightarrow>
   i \<le> indexOf_from xs p i \<and> indexOf_from xs p i < i + int (length xs)
   \<and> xs ! nat (indexOf_from xs p i - i) = p"
proof (induction xs arbitrary: i)
  case Nil
  then show ?case by simp
next
  case (Cons y ys)
  show ?case
  proof (cases "y = p")
    case True
    then show ?thesis by simp
  next
    case False
    with Cons.prems have "p \<in> set ys" by simp
    from Cons.IH [OF this, of "i + 1"]
    have ih: "i + 1 \<le> indexOf_from ys p (i + 1)"
      "indexOf_from ys p (i + 1) < i + 1 + int (length ys)"
      "ys ! nat (indexOf_from ys p (i + 1) - (i + 1)) = p"
      by simp_all
    have "nat (indexOf_from ys p (i + 1) - i) = Suc (nat (indexOf_from ys p (i + 1) - (i + 1)))"
      using ih(1) by simp
    with False ih show ?thesis by simp
  qed
qed

lemma indexOf_found:
  "p \<in> set xs \<Longrightarrow> 0 \<le> indexOf xs p \<and> indexOf xs p < int (length xs) \<and> xs ! nat (indexOf xs p) = p"
  using indexOf_from_found [of p xs 0] by (simp add: indexOf_def)

lemma js_index_neighbour:
  assumes "distinct xs" and "p \<in> set xs" and "j \<noteq> indexOf xs p" and "js_index xs j = Some q"
  shows "q \<in> set xs \<and> q \<noteq> p"
proof -
  from assms(4) have j: "0 \<le> j" "j < int (length xs)" and q: "q = xs ! nat j"
    by (auto simp: js_index_def split: if_splits)
  from indexOf_found [OF assms(2)]
  have i: "0 \<le> indexOf xs p" "indexOf xs p < int (length xs)" "xs ! nat (indexOf xs p) = p"
    by simp_all
  have "nat j < length xs" "nat (indexOf xs p) < length xs" "nat j \<noteq> nat (indexOf xs p)"
    using j i assms(3) by auto
  with assms(1) i(3) q have "q \<noteq> p"
    by (auto simp: nth_eq_iff_index_eq)
  moreover have "q \<in> set xs"
    using q \<open>nat j < length xs\<close> by simp
  ultimately show ?thesis by simp
qed

lemma closeFile_keeps_invariant:
  assumes inv: "active_in_open s" and uniq: "distinct (openFiles s)"
  shows "active_in_open (closeFile p s)"
proof (cases "activeFile s = Some p")
  case False
  with inv show ?thesis
    by (auto simp: active_in_open_iff closeFile_def)
next
  case True
  with inv have open_p: "p \<in> set (openFiles s)"
    by (simp add: active_in_open_def)
  let ?i = "indexOf (openFiles s) p"
  let ?new = "js_or (js_or (js_index (openFiles s) (?i - 1)) (js_index (openFiles s) (?i + 1))) None"
  have new: "activeFile (closeFile p s) = ?new" and tabs: "openFiles (closeFile p s) = filter (\<lambda>f. f \<noteq> p) (openFiles s)"
    using True by (simp_all add: closeFile_def Let_def)
  have "?new = None \<or> (\<exists>q. ?new = Some q \<and> q \<in> set (openFiles s) \<and> q \<noteq> p)"
  proof (cases ?new)
    case None
    then show ?thesis by simp
  next
    case (Some q)
    then have "js_index (openFiles s) (?i - 1) = Some q \<or> js_index (openFiles s) (?i + 1) = Some q"
      by (auto simp: js_or_def split: if_splits)
    then have "q \<in> set (openFiles s) \<and> q \<noteq> p"
      using js_index_neighbour [OF uniq open_p, of "?i - 1" q]
        js_index_neighbour [OF uniq open_p, of "?i + 1" q]
      by auto
    with Some show ?thesis by simp
  qed
  then show ?thesis
    by (auto simp: active_in_open_iff new tabs)
qed

text \<open>
  Every operation but \<open>deleteFile\<close> keeps the invariant, \<open>closeFile\<close> on the condition
  that \<open>openFiles\<close> holds no path twice; \<open>deleteFile\<close> keeps it when the deleted path is
  not the active one.
\<close>

theorem reconciler_operations_keep_invariant:
  "active_in_open (snd (openFile p r s))
   \<and> (active_in_open s \<longrightarrow> active_in_open (snd (saveFile p c r1 s)))
   \<and> (active_in_open s \<longrightarrow> active_in_open (snd (createFile p r1 t s)))
   \<and> (active_in_open s \<longrightarrow> active_in_open (snd (renameFile p p' r1 t s)))
   \<and> (active_in_open s \<and> distinct (openFiles s) \<longrightarrow> active_in_open (closeFile p s))
   \<and> (active_in_open s \<longrightarrow> active_in_open (reconcile fc read t m s))
   \<and> (active_in_open s \<and> activeFile s \<noteq> Some p \<longrightarrow> active_in_open (snd (deleteFile p r1 t s)))"
proof (intro conjI impI)
  show "active_in_open (snd (openFile p r s))"
    by (auto simp: active_in_open_def openFile_state Let_def loadFile_keeps_tabs)
next
  assume "active_in_open s"
  then show "active_in_open (snd (saveFile p c r1 s))"
    by (auto simp: active_in_open_iff saveFile_def split: sum.splits)
next
  assume "active_in_open s"
  then show "active_in_open (snd (createFile p r1 t s))"
    by (auto simp: active_in_open_iff createFile_def split: sum.splits)
next
  assume "active_in_open s"
  then show "active_in_open (snd (renameFile p p' r1 t s))"
    by (auto simp: active_in_open_iff renameFile_def split: sum.splits)
next
  assume "active_in_open s \<and> distinct (openFiles s)"
  then show "active_in_open (closeFile p s)"
    by (simp add: closeFile_keeps_invariant)
next
  assume "active_in_open s"
  then show "active_in_open (reconcile fc read t m s)"
    by (simp add: active_in_open_iff reconcile_def fold_answer_keeps_tabs)
next
  assume "active_in_open s \<and> activeFile s \<noteq> Some p"
  then show "active_in_open (snd (deleteFile p r1 t s))"
    by (auto simp: active_in_open_iff deleteFile_def split: sum.splits)
qed

theorem reconciler_operations_keep_invariant_witness:
  "active_in_open (closeFile ''b.js''
      \<lparr>fileTree = [], openFiles = [''a.js'', ''b.js''], activeFile = Some ''b.js'',
       fileContents = Map.empty, loading = False\<rparr>)
   \<and> active_in_open (snd (renameFile ''b.js'' ''c.js'' (Inr ()) (Inr [])
      \<lparr>fileTree = [], openFiles = [''a.js'', ''b.js''], activeFile = Some ''b.js'',
       fileContents = Map.empty, loading = False\<rparr>))
   \<and> active_in_open (snd (deleteFile ''a.js'' (Inr ()) (Inr [])
      \<lparr>fileTree = [], openFiles = [''a.js'', ''b.js''], activeFile = Some ''b.js'',
       fileContents = Map.empty, loading = False\<rparr>))"
  using reconciler_operations_keep_invariant [of "''b.js''" _
      "\<lparr>fileTree = [], openFiles = [''a.js'', ''b.js''], activeFile = Some ''b.js'',
        fileContents = Map.empty, loading = False\<rparr>" _ _ "Inr []" "''c.js''"]
    reconciler_operations_keep_invariant [of "''a.js''" _
      "\<lparr>fileTree = [], openFiles = [''a.js'', ''b.js''], activeFile = Some ''b.js'',
        fileContents = Map.empty, loading = False\<rparr>" _ "Inr ()" "Inr []"]
  by (simp add: active_in_open_def)

section \<open>CRUD handlers: theorems\<close>

lemma startsWith_Cons [simp]: "startsWith (c # s) (d # w) = (c = d \<and> startsWith s w)"
  by (auto simp: startsWith_def)

lemma startsWith_Nil [simp]: "startsWith s []"
  by (simp add: startsWith_def)

lemma startsWith_Nil_left [simp]: "startsWith [] w = (w = [])"
  by (simp add: startsWith_def)

text \<open>
  What the containment check of the five handlers does: a request that passes the
  required-field test and whose joined path does not start with \<open>WORKSPACE_DIR\<close>,
  character by character, is answered 403 with no storage call.
\<close>

lemma read_handler_rejects:
  "truthy q \<Longrightarrow> \<not> startsWith (path_join W (the q)) W
   \<Longrightarrow> read_handler fs W q = (Status403 ''Access denied'', [])"
  by (simp add: read_handler_def Let_def)

lemma write_handler_rejects:
  "truthy q \<Longrightarrow> body_content \<noteq> None \<Longrightarrow> \<not> startsWith (path_join W (the q)) W
   \<Longrightarrow> write_handler fs W q body_content = (Status403 ''Access denied'', [])"
  by (simp add: write_handler_def Let_def)

lemma create_handler_rejects:
  "truthy q \<Longrightarrow> truthy body_type \<Longrightarrow> \<not> startsWith (path_join W (the q)) W
   \<Longrightarrow> create_handler fs W q body_type body_content = (Status403 ''Access denied'', [])"
  by (simp add: create_handler_def Let_def)

lemma delete_handler_rejects:
  "truthy q \<Longrightarrow> \<not> startsWith (path_join W (the q)) W
   \<Longrightarrow> delete_handler fs W q = (Status403 ''Access denied'', [])"
  by (simp add: delete_handler_def Let_def)

lemma rename_handler_rejects:
  "truthy old \<Longrightarrow> truthy new
   \<Longrightarrow> \<not> startsWith (path_join W (the old)) W \<or> \<not> startsWith (path_join W (the new)) W
   \<Longrightarrow> rename_handler fs W old new = (Status403 ''Access denied'', [])"
  by (auto simp: rename_handler_def Let_def)

lemma path_join_sibling:
  "path_join ''/srv/app/workspace'' ''../workspace-backup/secret.txt''
   = ''/srv/app/workspace-backup/secret.txt''"
  by (simp add: path_join_def path_normalize_def)

text \<open>
  C1. Every path-accepting operation is claimed to answer access-denied, with no storage
  call, whenever the resolved path is outside the workspace root. The check is
  \<open>fullPath.startsWith(WORKSPACE_DIR)\<close> under the comment "Security check: ensure path
  is within workspace": a comparison of characters, not of path segments. With the
  workspace at \<open>/srv/app/workspace\<close>, the request path
  \<open>../workspace-backup/secret.txt\<close> resolves to
  \<open>/srv/app/workspace-backup/secret.txt\<close>, in a sibling directory whose name begins
  with the root's name: outside the root, yet it passes the check, and \<open>read\<close> reads and
  returns the file. Whatever the store answers, the first thing the handler does with
  this request is to read that file.
\<close>

theorem read_handler_sibling_directory_escapes:
  "path_join ''/srv/app/workspace'' ''../workspace-backup/secret.txt''
     = ''/srv/app/workspace-backup/secret.txt''
   \<and> \<not> within_workspace ''/srv/app/workspace'' ''/srv/app/workspace-backup/secret.txt''
   \<and> read_handler
        \<lparr>fs_readFile = (\<lambda>p. Inr ''top secret''),
         fs_stat = (\<lambda>p. Inr \<lparr>isDirectory = False, st_size = 10, st_mtime = 0\<rparr>),
         fs_mkdir = (\<lambda>p. Inr ()), fs_writeFile = (\<lambda>p c. Inr ()), fs_rm = (\<lambda>p. Inr ()),
         fs_unlink = (\<lambda>p. Inr ()), fs_rename = (\<lambda>p q. Inr ())\<rparr>
        ''/srv/app/workspace'' (Some ''../workspace-backup/secret.txt'')
     = (ReadResult ''top secret'' ''../workspace-backup/secret.txt'' 10 0,
        [ReadFile ''/srv/app/workspace-backup/secret.txt'',
         Stat ''/srv/app/workspace-backup/secret.txt''])
   \<and> hd (snd (read_handler fs ''/srv/app/workspace'' (Some ''../workspace-backup/secret.txt'')))
     = ReadFile ''/srv/app/workspace-backup/secret.txt''"
proof -
  have outside: "\<not> within_workspace ''/srv/app/workspace'' ''/srv/app/workspace-backup/secret.txt''"
    by (simp add: within_workspace_def abs_segments_def)
  have served: "read_handler
        \<lparr>fs_readFile = (\<lambda>p. Inr ''top secret''),
         fs_stat = (\<lambda>p. Inr \<lparr>isDirectory = False, st_size = 10, st_mtime = 0\<rparr>),
         fs_mkdir = (\<lambda>p. Inr ()), fs_writeFile = (\<lambda>p c. Inr ()), fs_rm = (\<lambda>p. Inr ()),
         fs_unlink = (\<lambda>p. Inr ()), fs_rename = (\<lambda>p q. Inr ())\<rparr>
        ''/srv/app/workspace'' (Some ''../workspace-backup/secret.txt'')
     = (ReadResult ''top secret'' ''../workspace-backup/secret.txt'' 10 0,
        [ReadFile ''/srv/app/workspace-backup/secret.txt'',
         Stat ''/srv/app/workspace-backup/secret.txt''])"
    by (simp add: read_handler_def Let_def path_join_sibling)
  have touched: "hd (snd (read_handler fs ''/srv/app/workspace'' (Some ''../workspace-backup/secret.txt'')))
     = ReadFile ''/srv/app/workspace-backup/secret.txt''"
    by (simp add: read_handler_def Let_def path_join_sibling split: sum.splits)
  from path_join_sibling outside served touched show ?thesis
    by simp
qed

section \<open>CRUD handlers: what the check guarantees\<close>

lemma path_join_etc_passwd:
  "path_join ''/srv/app/workspace'' ''../../etc/passwd'' = ''/srv/etc/passwd''"
  by (simp add: path_join_def path_normalize_def)

lemma dirname_sibling:
  "dirname ''/srv/app/workspace-backup/secret.txt'' = ''/srv/app/workspace-backup''"
  by (simp add: dirname_def)

text \<open>
  The same request path makes \<open>write\<close> create the sibling directory and the file in it.
\<close>

lemma write_handler_sibling_directory_escapes:
  "write_handler
        \<lparr>fs_readFile = (\<lambda>p. Inr []),
         fs_stat = (\<lambda>p. Inr \<lparr>isDirectory = False, st_size = 0, st_mtime = 0\<rparr>),
         fs_mkdir = (\<lambda>p. Inr ()), fs_writeFile = (\<lambda>p c. Inr ()), fs_rm = (\<lambda>p. Inr ()),
         fs_unlink = (\<lambda>p. Inr ()), fs_rename = (\<lambda>p q. Inr ())\<rparr>
        ''/srv/app/workspace'' (Some ''../workspace-backup/secret.txt'') (Some ''x'')
     = (Success [''../workspace-backup/secret.txt''] ''File saved successfully'',
        [Mkdir ''/srv/app/workspace-backup'',
         WriteFile ''/srv/app/workspace-backup/secret.txt'' ''x''])"
  by (simp add: write_handler_def Let_def path_join_sibling dirname_sibling)

text \<open>
  What the check of the five handlers does guarantee. A request whose joined path does
  not start with \<open>WORKSPACE_DIR\<close>, character by character, is answered 403 with no
  storage call, once it has passed the test of its required fields; a request that fails
  that test is answered 400, with no storage call either.
\<close>

theorem handlers_reject_outside_prefix:
  "(truthy q \<and> \<not> startsWith (path_join W (the q)) W
      \<longrightarrow> read_handler fs W q = (Status403 ''Access denied'', [])
        \<and> delete_handler fs W q = (Status403 ''Access denied'', [])
        \<and> (body_content \<noteq> None
             \<longrightarrow> write_handler fs W q body_content = (Status403 ''Access denied'', []))
        \<and> (truthy body_type
             \<longrightarrow> create_handler fs W q body_type body_content = (Status403 ''Access denied'', []))
        \<and> (truthy q'
             \<longrightarrow> rename_handler fs W q q' = (Status403 ''Access denied'', [])
               \<and> rename_handler fs W q' q = (Status403 ''Access denied'', [])))
   \<and> (\<not> truthy q
      \<longrightarrow> read_handler fs W q = (Status400 ''File path is required'', [])
        \<and> delete_handler fs W q = (Status400 ''File path is required'', [])
        \<and> snd (write_handler fs W q body_content) = []
        \<and> snd (create_handler fs W q body_type body_content) = []
        \<and> snd (rename_handler fs W q q') = []
        \<and> snd (rename_handler fs W q' q) = [])"
proof (intro conjI impI)
  assume h: "truthy q \<and> \<not> startsWith (path_join W (the q)) W"
  then show "read_handler fs W q = (Status403 ''Access denied'', [])"
    by (simp add: read_handler_rejects)
  from h show "delete_handler fs W q = (Status403 ''Access denied'', [])"
    by (simp add: delete_handler_rejects)
  {
    assume "body_content \<noteq> None"
    with h show "write_handler fs W q body_content = (Status403 ''Access denied'', [])"
      by (simp add: write_handler_rejects)
  }
  {
    assume "truthy body_type"
    with h show "create_handler fs W q body_type body_content = (Status403 ''Access denied'', [])"
      by (simp add: create_handler_rejects)
  }
  {
    assume "truthy q'"
    with h show "rename_handler fs W q q' = (Status403 ''Access denied'', [])"
      by (simp add: rename_handler_rejects)
  }
  {
    assume "truthy q'"
    with h show "rename_handler fs W q' q = (Status403 ''Access denied'', [])"
      by (simp add: rename_handler_rejects)
  }
next
  assume h: "\<not> truthy q"
  then show "read_handler fs W q = (Status400 ''File path is required'', [])"
    by (simp add: read_handler_def)
  from h show "delete_handler fs W q = (Status400 ''File path is required'', [])"
    by (simp add: delete_handler_def)
  from h show "snd (write_handler fs W q body_content) = []"
    by (simp add: write_handler_def)
  from h show "snd (create_handler fs W q body_type body_content) = []"
    by (simp add: create_handler_def)
  from h show "snd (rename_handler fs W q q') = []"
    by (simp add: rename_handler_def)
  from h show "snd (rename_handler fs W q' q) = []"
    by (simp add: rename_handler_def)
qed

theorem handlers_reject_outside_prefix_witness:
  "read_handler accepting_store ''/srv/app/workspace'' (Some ''../../etc/passwd'') = (Status403 ''Access denied'', [])
   \<and> delete_handler accepting_store ''/srv/app/workspace'' (Some ''../../etc/passwd'') = (Status403 ''Access denied'', [])
   \<and> write_handler accepting_store ''/srv/app/workspace'' (Some ''../../etc/passwd'') (Some ''x'')
       = (Status403 ''Access denied'', [])
   \<and> create_handler accepting_store ''/srv/app/workspace'' (Some ''../../etc/passwd'') (Some ''file'') None
       = (Status403 ''Access denied'', [])
   \<and> rename_handler accepting_store ''/srv/app/workspace'' (Some ''a.txt'') (Some ''../../etc/passwd'')
       = (Status403 ''Access denied'', [])
   \<and> read_handler accepting_store ''/srv/app/workspace'' None = (Status400 ''File path is required'', [])"
  using
    handlers_reject_outside_prefix [of "Some ''../../etc/passwd''" "''/srv/app/workspace''" accepting_store
      "Some ''x''" "Some ''file''" "Some ''a.txt''"]
    handlers_reject_outside_prefix [of "Some ''../../etc/passwd''" "''/srv/app/workspace''" accepting_store
      "None" "Some ''file''" "Some ''a.txt''"]
    handlers_reject_outside_prefix [of "None" "''/srv/app/workspace''" accepting_store]
  by (simp add: path_join_etc_passwd)

section \<open>Fan-out Hub: theorems\<close>

lemma forEach_send_all_return:
  "\<forall>c\<in>set cs. readyState e c = 1 \<longrightarrow> send_returns e c
   \<Longrightarrow> forEach_send e m cs = (map (\<lambda>c. Send c m) (filter (\<lambda>c. readyState e c = 1) cs), False)"
  by (induction cs) auto

lemma send_calls_forEach_member:
  "(c, x) \<in> set (send_calls (fst (forEach_send e m cs))) \<Longrightarrow> c \<in> set cs"
  by (induction cs) (auto split: prod.splits if_splits)

lemma broadcast_not_to_unregistered:
  "ws \<notin> set cs \<Longrightarrow> ws \<notin> fst ` set (send_calls (effects (broadcast e m cs)))"
proof -
  assume out: "ws \<notin> set cs"
  have "effects (broadcast e m cs) = fst (forEach_send e m cs)"
    by (simp add: broadcast_def split: prod.splits)
  with send_calls_forEach_member [of ws _ e m cs] out show ?thesis
    by auto
qed

lemma set_delete_set [simp]: "set (set_delete x xs) = set xs - {x}"
  by (auto simp: set_delete_def)

text \<open>
  Without a \<open>try\<close> in \<open>broadcast\<close>, a \<open>send\<close> that throws ends the loop: the sessions
  after it are not sent to, and the exception leaves \<open>broadcast\<close>.
\<close>

lemma broadcast_send_throws:
  "readyState e c = 1 \<Longrightarrow> \<not> send_returns e c
   \<Longrightarrow> broadcast e m (c # rest)
     = \<lparr>clients_after = c # rest, effects = [SendThrew c m], uncaught = True\<rparr>"
  by (simp add: broadcast_def)

text \<open>
  C3 as stated fails: \<open>broadcast\<close> never unregisters. With session 1 closing or closed
  and session 2 open, session 2 is sent the event and session 1 stays in \<open>clients\<close>.
\<close>

theorem broadcast_keeps_closed_session:
  "broadcast \<lparr>readyState = (\<lambda>c. if c = 1 then 3 else 1), send_returns = (\<lambda>c. True), now = 0\<rparr>
       (FileChanged ''a.js'') [1, 2]
     = \<lparr>clients_after = [1, 2], effects = [Send 2 (FileChanged ''a.js'')], uncaught = False\<rparr>
   \<and> broadcast \<lparr>readyState = (\<lambda>c. if c = 1 then 2 else 1), send_returns = (\<lambda>c. True), now = 0\<rparr>
       (FileChanged ''a.js'') [1, 2]
     = \<lparr>clients_after = [1, 2], effects = [Send 2 (FileChanged ''a.js'')], uncaught = False\<rparr>"
  by (simp add: broadcast_def)

text \<open>
  C3, amended. \<open>broadcast\<close> leaves \<open>clients\<close> as it is. When every \<open>send\<close> to an open
  session returns, it sends the event to exactly the registered sessions whose
  \<open>readyState\<close> is OPEN, in registration order, whatever the state of the others, and no
  exception leaves it. A session is unregistered by its own \<open>close\<close> or \<open>error\<close> event,
  which removes that session and no other; from then on no \<open>broadcast\<close> calls its
  \<open>send\<close>.
\<close>

theorem broadcast_isolation:
  "clients_after (broadcast e m cs) = cs
   \<and> ((\<forall>c\<in>set cs. readyState e c = 1 \<longrightarrow> send_returns e c)
        \<longrightarrow> effects (broadcast e m cs) = map (\<lambda>c. Send c m) (filter (\<lambda>c. readyState e c = 1) cs)
          \<and> \<not> uncaught (broadcast e m cs))
   \<and> set (clients_after (on_close ws cs)) = set cs - {ws}
   \<and> set (clients_after (on_error ws cs)) = set cs - {ws}
   \<and> ws \<notin> fst ` set (send_calls (effects (broadcast e' m' (clients_after (on_close ws cs)))))
   \<and> ws \<notin> fst ` set (send_calls (effects (broadcast e' m' (clients_after (on_error ws cs)))))"
proof -
  have registry: "clients_after (broadcast e m cs) = cs"
    by (simp add: broadcast_def split: prod.splits)
  have deliver: "(\<forall>c\<in>set cs. readyState e c = 1 \<longrightarrow> send_returns e c)
        \<longrightarrow> effects (broadcast e m cs) = map (\<lambda>c. Send c m) (filter (\<lambda>c. readyState e c = 1) cs)
          \<and> \<not> uncaught (broadcast e m cs)"
    by (simp add: broadcast_def forEach_send_all_return)
  have closed: "set (clients_after (on_close ws cs)) = set cs - {ws}"
    by (simp add: on_close_def)
  have errored: "set (clients_after (on_error ws cs)) = set cs - {ws}"
    by (simp add: on_error_def)
  have later_close: "ws \<notin> fst ` set (send_calls (effects (broadcast e' m' (clients_after (on_close ws cs)))))"
    by (rule broadcast_not_to_unregistered) (simp add: closed)
  have later_error: "ws \<notin> fst ` set (send_calls (effects (broadcast e' m' (clients_after (on_error ws cs)))))"
    by (rule broadcast_not_to_unregistered) (simp add: errored)
  from registry deliver closed errored later_close later_error show ?thesis
    by blast
qed

theorem broadcast_isolation_witness:
  "effects (broadcast \<lparr>readyState = (\<lambda>c. if c = 2 then 3 else 1), send_returns = (\<lambda>c. True), now = 0\<rparr>
       (FileAdded ''b.js'') [1, 2, 3])
     = [Send 1 (FileAdded ''b.js''), Send 3 (FileAdded ''b.js'')]
   \<and> clients_after (on_close 2 [1, 2, 3]) = [1, 3]"
  using broadcast_isolation [of
      "\<lparr>readyState = (\<lambda>c. if c = 2 then 3 else 1), send_returns = (\<lambda>c. True), now = 0\<rparr>"
      "FileAdded ''b.js''" "[1, 2, 3]" 2]
  by (simp add: on_close_def set_delete_def)

lemma property_ping_not_null: "property data k = Some v \<Longrightarrow> data \<noteq> JNull"
  by (cases data) auto

lemma send_calls_reply [simp]: "send_calls (reply e ws m) = [(ws, m)]"
  by (simp add: reply_def)

lemma on_message_typed:
  "data \<noteq> JNull \<Longrightarrow>
   effects (on_message e ws (Some data) cs) =
     (if property data ''type'' = Some (JString ''ping'') then reply e ws (Pong (now e))
      else if property data ''type'' = Some (JString ''subscribe'')
        then reply e ws (Subscribed (property data ''channel''))
      else [Log ''Unknown message type:''])"
  by (cases data) (simp_all add: on_message_def)

lemma on_message_null:
  "effects (on_message e ws (Some JNull) cs) = [LogError ''WebSocket message error:'']"
  by (simp add: on_message_def)

text \<open>
  C9. A \<open>ping\<close> message is answered by exactly one call of \<open>send\<close>, with a \<open>pong\<close>
  carrying \<open>Date.now()\<close>; a \<open>subscribe\<close> message by one \<open>subscribed\<close> carrying the
  message's \<open>channel\<close>; a parsed message of any other type is logged and not answered; a
  message that does not parse is logged and not answered. Whatever the message, the
  handler leaves \<open>clients\<close> as it is and no exception leaves it.
\<close>

theorem on_message_protocol:
  "(property data ''type'' = Some (JString ''ping'')
      \<longrightarrow> send_calls (effects (on_message e ws (Some data) cs)) = [(ws, Pong (now e))]
        \<and> (send_returns e ws \<longrightarrow> effects (on_message e ws (Some data) cs) = [Send ws (Pong (now e))]))
   \<and> (property data ''type'' = Some (JString ''subscribe'')
      \<longrightarrow> send_calls (effects (on_message e ws (Some data) cs))
            = [(ws, Subscribed (property data ''channel''))]
        \<and> (send_returns e ws \<longrightarrow> effects (on_message e ws (Some data) cs)
              = [Send ws (Subscribed (property data ''channel''))]))
   \<and> (property data ''type'' \<noteq> Some (JString ''ping'')
        \<and> property data ''type'' \<noteq> Some (JString ''subscribe'')
      \<longrightarrow> send_calls (effects (on_message e ws (Some data) cs)) = []
        \<and> logged (effects (on_message e ws (Some data) cs)))
   \<and> send_calls (effects (on_message e ws None cs)) = []
   \<and> logged (effects (on_message e ws None cs))
   \<and> clients_after (on_message e ws parsed cs) = cs
   \<and> \<not> uncaught (on_message e ws parsed cs)"
proof -
  have ping: "property data ''type'' = Some (JString ''ping'')
      \<longrightarrow> send_calls (effects (on_message e ws (Some data) cs)) = [(ws, Pong (now e))]
        \<and> (send_returns e ws \<longrightarrow> effects (on_message e ws (Some data) cs) = [Send ws (Pong (now e))])"
    using property_ping_not_null [of data "''type''"]
    by (auto simp: on_message_typed reply_def)
  have subscribe: "property data ''type'' = Some (JString ''subscribe'')
      \<longrightarrow> send_calls (effects (on_message e ws (Some data) cs))
            = [(ws, Subscribed (property data ''channel''))]
        \<and> (send_returns e ws \<longrightarrow> effects (on_message e ws (Some data) cs)
              = [Send ws (Subscribed (property data ''channel''))])"
    using property_ping_not_null [of data "''type''"]
    by (auto simp: on_message_typed reply_def)
  have other: "property data ''type'' \<noteq> Some (JString ''ping'')
        \<and> property data ''type'' \<noteq> Some (JString ''subscribe'')
      \<longrightarrow> send_calls (effects (on_message e ws (Some data) cs)) = []
        \<and> logged (effects (on_message e ws (Some data) cs))"
  proof (cases "data = JNull")
    case True
    then show ?thesis by (simp add: on_message_null)
  next
    case False
    then show ?thesis by (simp add: on_message_typed)
  qed
  have malformed: "send_calls (effects (on_message e ws None cs)) = []
      \<and> logged (effects (on_message e ws None cs))"
    by (simp add: on_message_def)
  have frame: "clients_after (on_message e ws parsed cs) = cs \<and> \<not> uncaught (on_message e ws parsed cs)"
    by (simp add: on_message_def)
  from ping subscribe other malformed frame show ?thesis
    by blast
qed

theorem on_message_protocol_witness:
  "effects (on_message \<lparr>readyState = (\<lambda>c. 1), send_returns = (\<lambda>c. True), now = 1700000000000\<rparr> 7
       (Some (JObject [(''type'', JString ''ping'')])) [7])
     = [Send 7 (Pong 1700000000000)]
   \<and> effects (on_message \<lparr>readyState = (\<lambda>c. 1), send_returns = (\<lambda>c. True), now = 1700000000000\<rparr> 7
       (Some (JObject [(''type'', JString ''subscribe''), (''channel'', JString ''files'')])) [7])
     = [Send 7 (Subscribed (Some (JString ''files'')))]
   \<and> send_calls (effects (on_message \<lparr>readyState = (\<lambda>c. 1), send_returns = (\<lambda>c. True), now = 1700000000000\<rparr> 7
       (Some (JObject [(''type'', JString ''hello'')])) [7])) = []
   \<and> logged (effects (on_message \<lparr>readyState = (\<lambda>c. 1), send_returns = (\<lambda>c. True), now = 1700000000000\<rparr> 7
       (Some (JObject [(''type'', JString ''hello'')])) [7]))"
  using
    on_message_protocol [of "JObject [(''type'', JString ''ping'')]"
      "\<lparr>readyState = (\<lambda>c. 1), send_returns = (\<lambda>c. True), now = 1700000000000\<rparr>" 7 "[7]"]
    on_message_protocol [of "JObject [(''type'', JString ''subscribe''), (''channel'', JString ''files'')]"
      "\<lparr>readyState = (\<lambda>c. 1), send_returns = (\<lambda>c. True), now = 1700000000000\<rparr>" 7 "[7]"]
    on_message_protocol [of "JObject [(''type'', JString ''hello'')]"
      "\<lparr>readyState = (\<lambda>c. 1), send_returns = (\<lambda>c. True), now = 1700000000000\<rparr>" 7 "[7]"]
  by simp

section \<open>Tree listing: theorems\<close>

lemma array_sort_Nil [simp]: "array_sort cmp [] = []"
  by (simp add: array_sort_def)

lemma array_sort_Cons [simp]: "array_sort cmp (x # xs) = insert_sorted cmp x (array_sort cmp xs)"
  by (simp add: array_sort_def)

lemma set_insert_sorted [simp]: "set (insert_sorted cmp x xs) = insert x (set xs)"
  by (induction xs) auto

lemma set_array_sort [simp]: "set (array_sort cmp xs) = set xs"
  by (induction xs) auto

lemma type_of_cases: "type_of a = TFile \<or> type_of a = TDirectory"
  by (cases a) auto

lemma directories_first_insert:
  "directories_first es \<Longrightarrow> directories_first (insert_sorted (compare_entries lc) x es)"
proof (induction es)
  case Nil
  then show ?case by (simp add: directories_first_def)
next
  case (Cons y ys)
  then have tail: "directories_first ys"
    and head: "\<forall>z\<in>set ys. \<not> (type_of y = TFile \<and> type_of z = TDirectory)"
    by (simp_all add: directories_first_def)
  show ?case
  proof (cases "compare_entries lc x y \<le> 0")
    case True
    then have xy: "\<not> (type_of x = TFile \<and> type_of y = TDirectory)"
      by (auto simp: compare_entries_def)
    have "\<forall>z\<in>set ys. \<not> (type_of x = TFile \<and> type_of z = TDirectory)"
    proof
      fix z assume z: "z \<in> set ys"
      show "\<not> (type_of x = TFile \<and> type_of z = TDirectory)"
      proof
        assume xz: "type_of x = TFile \<and> type_of z = TDirectory"
        with head z have "type_of y \<noteq> TFile" by auto
        then have "type_of y = TDirectory" using type_of_cases [of y] by simp
        with xy xz show False by simp
      qed
    qed
    with True xy Cons.prems show ?thesis
      by (simp add: directories_first_def)
  next
    case False
    then have yx: "\<not> (type_of y = TFile \<and> type_of x = TDirectory)"
      by (auto simp: compare_entries_def)
    from Cons.IH [OF tail] have "directories_first (insert_sorted (compare_entries lc) x ys)" .
    with False yx head show ?thesis
      by (simp add: directories_first_def)
  qed
qed

lemma directories_first_array_sort: "directories_first (array_sort (compare_entries lc) es)"
  by (induction es) (simp_all add: directories_first_insert, simp add: directories_first_def)

lemma sorted_wrt_insert_sorted:
  assumes total: "\<forall>a b. cmp a b \<le> 0 \<or> cmp b a \<le> 0"
    and trans: "\<forall>a b c. cmp a b \<le> 0 \<and> cmp b c \<le> 0 \<longrightarrow> cmp a c \<le> 0"
  shows "sorted_wrt (\<lambda>a b. cmp a b \<le> 0) xs
    \<Longrightarrow> sorted_wrt (\<lambda>a b. cmp a b \<le> 0) (insert_sorted cmp x xs)"
proof (induction xs)
  case Nil
  then show ?case by simp
next
  case (Cons y ys)
  from Cons.prems have after_y: "\<forall>z\<in>set ys. cmp y z \<le> 0"
    and tail: "sorted_wrt (\<lambda>a b. cmp a b \<le> 0) ys"
    by simp_all
  show ?case
  proof (cases "cmp x y \<le> 0")
    case True
    have "\<forall>z\<in>set ys. cmp x z \<le> 0"
    proof
      fix z assume "z \<in> set ys"
      with after_y have "cmp y z \<le> 0" by simp
      with True trans show "cmp x z \<le> 0" by blast
    qed
    with True after_y tail show ?thesis by simp
  next
    case False
    with total have yx: "cmp y x \<le> 0" by blast
    from Cons.IH [OF tail] have "sorted_wrt (\<lambda>a b. cmp a b \<le> 0) (insert_sorted cmp x ys)" .
    with False yx after_y show ?thesis by simp
  qed
qed

lemma sorted_wrt_array_sort:
  assumes total: "\<forall>a b. cmp a b \<le> 0 \<or> cmp b a \<le> 0"
    and trans: "\<forall>a b c. cmp a b \<le> 0 \<and> cmp b c \<le> 0 \<longrightarrow> cmp a c \<le> 0"
  shows "sorted_wrt (\<lambda>a b. cmp a b \<le> 0) (array_sort cmp xs)"
proof (induction xs)
  case Nil
  show ?case by simp
next
  case (Cons x xs)
  from sorted_wrt_insert_sorted [OF total trans Cons.IH]
  show ?case by simp
qed

lemma compare_entries_le:
  "(compare_entries lc a b \<le> 0) =
     ((type_of a = type_of b \<and> lc (entry_name a) (entry_name b) \<le> 0)
      \<or> (type_of a = TDirectory \<and> type_of b = TFile))"
  using type_of_cases [of b] by (auto simp: compare_entries_def)

lemma compare_entries_total:
  assumes "\<forall>a b. lc a b \<le> 0 \<or> lc b a \<le> 0"
  shows "\<forall>a b. compare_entries lc a b \<le> 0 \<or> compare_entries lc b a \<le> 0"
proof (intro allI)
  fix a b
  have "lc (entry_name a) (entry_name b) \<le> 0 \<or> lc (entry_name b) (entry_name a) \<le> 0"
    using assms by blast
  then show "compare_entries lc a b \<le> 0 \<or> compare_entries lc b a \<le> 0"
    using type_of_cases [of a] type_of_cases [of b]
    by (cases "type_of a = type_of b") (auto simp: compare_entries_def)
qed

lemma compare_entries_trans:
  assumes "\<forall>a b c. lc a b \<le> 0 \<and> lc b c \<le> 0 \<longrightarrow> lc a c \<le> 0"
  shows "\<forall>a b c. compare_entries lc a b \<le> 0 \<and> compare_entries lc b c \<le> 0
           \<longrightarrow> compare_entries lc a c \<le> 0"
proof (intro allI impI)
  fix a b c
  assume h: "compare_entries lc a b \<le> 0 \<and> compare_entries lc b c \<le> 0"
  from h have ab: "(type_of a = type_of b \<and> lc (entry_name a) (entry_name b) \<le> 0)
      \<or> (type_of a = TDirectory \<and> type_of b = TFile)"
    by (simp add: compare_entries_le)
  from h have bc: "(type_of b = type_of c \<and> lc (entry_name b) (entry_name c) \<le> 0)
      \<or> (type_of b = TDirectory \<and> type_of c = TFile)"
    by (simp add: compare_entries_le)
  have names: "lc (entry_name a) (entry_name b) \<le> 0 \<Longrightarrow> lc (entry_name b) (entry_name c) \<le> 0
      \<Longrightarrow> lc (entry_name a) (entry_name c) \<le> 0"
    using assms by blast
  from ab bc names
  have "(type_of a = type_of c \<and> lc (entry_name a) (entry_name c) \<le> 0)
      \<or> (type_of a = TDirectory \<and> type_of c = TFile)"
    by auto
  then show "compare_entries lc a c \<le> 0"
    by (simp add: compare_entries_le)
qed

lemma names_ordered_array_sort:
  assumes total: "\<forall>a b. lc a b \<le> 0 \<or> lc b a \<le> 0"
    and trans: "\<forall>a b c. lc a b \<le> 0 \<and> lc b c \<le> 0 \<longrightarrow> lc a c \<le> 0"
  shows "names_ordered lc (array_sort (compare_entries lc) es)"
proof -
  have "sorted_wrt (\<lambda>a b. compare_entries lc a b \<le> 0) (array_sort (compare_entries lc) es)"
    by (rule sorted_wrt_array_sort [OF compare_entries_total [OF total] compare_entries_trans [OF trans]])
  then show ?thesis
    unfolding names_ordered_def
    by (rule sorted_wrt_mono_rel [rotated]) (auto simp: compare_entries_def split: if_splits)
qed

lemma every_level_build_entry:
  assumes "\<And>xs. P (array_sort (compare_entries lc) xs)"
  shows "every_level_in P (build_entry lc basePath node)"
proof (induction node arbitrary: basePath)
  case (FsFile item sz mt)
  then show ?case by simp
next
  case (FsDir item items)
  then show ?case
    using assms by (auto simp: list_all_iff)
qed

lemma every_level_buildFileTree:
  assumes sorted: "\<And>xs. P (array_sort (compare_entries lc) xs)"
  shows "every_level P (buildFileTree lc basePath items)"
proof -
  have "list_all (every_level_in P) (map (build_entry lc basePath) items)"
    by (simp add: list_all_iff every_level_build_entry [of P, OF sorted])
  then have "list_all (every_level_in P) (buildFileTree lc basePath items)"
    by (simp add: buildFileTree_def list_all_iff)
  moreover have "P (buildFileTree lc basePath items)"
    by (simp add: buildFileTree_def sorted)
  ultimately show ?thesis by simp
qed

lemma entry_paths_build_entry:
  "set (entry_paths (build_entry lc basePath node)) = set (node_paths basePath node)"
  by (induction node arbitrary: basePath) auto

lemma entry_name_build_entry [simp]: "entry_name (build_entry lc basePath node) = node_name node"
  by (cases node) simp_all

lemma paths_buildFileTree:
  "set (concat (map entry_paths (buildFileTree lc basePath items)))
   = set (concat (map (node_paths basePath) items))"
  by (simp add: buildFileTree_def entry_paths_build_entry)

lemma names_buildFileTree:
  "entry_name ` set (buildFileTree lc basePath items) = node_name ` set items"
  by (simp add: buildFileTree_def image_image)

lemma collation_compare_le: "(collation_compare a b \<le> 0) = (collation_key a \<le> collation_key b)"
  by (auto simp: collation_compare_def)

lemma collation_compare_total: "\<forall>a b. collation_compare a b \<le> 0 \<or> collation_compare b a \<le> 0"
  unfolding collation_compare_le by (simp add: linear)

lemma collation_compare_trans:
  "\<forall>a b c. collation_compare a b \<le> 0 \<and> collation_compare b c \<le> 0 \<longrightarrow> collation_compare a c \<le> 0"
  unfolding collation_compare_le using order_trans by blast

lemma collation_lower_before_upper:
  "collation_compare ''a'' ''B'' = - 1"
  "lexicographic_compare ''a'' ''B'' = 1"
  by code_simp+

text \<open>
  C5 as stated fails on the order of names. \<open>localeCompare\<close> is a locale collation, not
  a comparison of character codes: it puts \<open>a\<close> before \<open>B\<close>, and so does the listing,
  while in case-sensitive lexicographic order \<open>B\<close> (code 66) is before \<open>a\<close> (code 97).
\<close>

theorem listing_not_lexicographic:
  "buildFileTree collation_compare [] [FsFile ''B'' 1 2, FsFile ''a'' 3 4]
     = [FileEntry ''a'' ''a'' 3 4, FileEntry ''B'' ''B'' 1 2]
   \<and> \<not> names_ordered lexicographic_compare
        (buildFileTree collation_compare [] [FsFile ''B'' 1 2, FsFile ''a'' 3 4])"
proof -
  have listing: "buildFileTree collation_compare [] [FsFile ''B'' 1 2, FsFile ''a'' 3 4]
     = [FileEntry ''a'' ''a'' 3 4, FileEntry ''B'' ''B'' 1 2]"
    by code_simp
  have "\<not> names_ordered lexicographic_compare [FileEntry ''a'' ''a'' 3 4, FileEntry ''B'' ''B'' 1 2]"
    by (simp add: names_ordered_def collation_lower_before_upper)
  with listing show ?thesis by simp
qed

text \<open>
  C5, amended. The listing is a function of the store and of the host's collation. At
  every level of it directories are before files, whatever the collation; and if
  \<open>localeCompare\<close> is a total preorder (any two names are comparable, and the comparison
  is transitive), entries of the same type are in the order of \<open>localeCompare\<close> on their
  names.
\<close>

theorem buildFileTree_order:
  "every_level directories_first (buildFileTree localeCompare basePath items)
   \<and> ((\<forall>a b. localeCompare a b \<le> 0 \<or> localeCompare b a \<le> 0)
        \<and> (\<forall>a b c. localeCompare a b \<le> 0 \<and> localeCompare b c \<le> 0 \<longrightarrow> localeCompare a c \<le> 0)
      \<longrightarrow> every_level (names_ordered localeCompare) (buildFileTree localeCompare basePath items))"
proof (intro conjI impI)
  show "every_level directories_first (buildFileTree localeCompare basePath items)"
    by (rule every_level_buildFileTree [where P = directories_first, OF directories_first_array_sort])
next
  assume h: "(\<forall>a b. localeCompare a b \<le> 0 \<or> localeCompare b a \<le> 0)
        \<and> (\<forall>a b c. localeCompare a b \<le> 0 \<and> localeCompare b c \<le> 0 \<longrightarrow> localeCompare a c \<le> 0)"
  from h have total: "\<forall>a b. localeCompare a b \<le> 0 \<or> localeCompare b a \<le> 0"
    by (rule conjunct1)
  from h have trans: "\<forall>a b c. localeCompare a b \<le> 0 \<and> localeCompare b c \<le> 0 \<longrightarrow> localeCompare a c \<le> 0"
    by (rule conjunct2)
  show "every_level (names_ordered localeCompare) (buildFileTree localeCompare basePath items)"
    by (rule every_level_buildFileTree [where P = "names_ordered localeCompare",
          OF names_ordered_array_sort [OF total trans]])
qed

theorem buildFileTree_order_witness:
  "buildFileTree collation_compare []
       [FsFile ''b.txt'' 1 2, FsDir ''src'' [FsFile ''Zeta.js'' 5 6, FsFile ''alpha.js'' 7 8, FsDir ''lib'' []],
        FsFile ''A.txt'' 3 4]
     = [DirectoryEntry ''src'' ''src''
          [DirectoryEntry ''lib'' ''src/lib'' [],
           FileEntry ''alpha.js'' ''src/alpha.js'' 7 8, FileEntry ''Zeta.js'' ''src/Zeta.js'' 5 6],
        FileEntry ''A.txt'' ''A.txt'' 3 4, FileEntry ''b.txt'' ''b.txt'' 1 2]
   \<and> every_level directories_first
        [DirectoryEntry ''src'' ''src''
          [DirectoryEntry ''lib'' ''src/lib'' [],
           FileEntry ''alpha.js'' ''src/alpha.js'' 7 8, FileEntry ''Zeta.js'' ''src/Zeta.js'' 5 6],
        FileEntry ''A.txt'' ''A.txt'' 3 4, FileEntry ''b.txt'' ''b.txt'' 1 2]
   \<and> every_level (names_ordered collation_compare)
        [DirectoryEntry ''src'' ''src''
          [DirectoryEntry ''lib'' ''src/lib'' [],
           FileEntry ''alpha.js'' ''src/alpha.js'' 7 8, FileEntry ''Zeta.js'' ''src/Zeta.js'' 5 6],
        FileEntry ''A.txt'' ''A.txt'' 3 4, FileEntry ''b.txt'' ''b.txt'' 1 2]"
proof -
  have listing: "buildFileTree collation_compare []
       [FsFile ''b.txt'' 1 2, FsDir ''src'' [FsFile ''Zeta.js'' 5 6, FsFile ''alpha.js'' 7 8, FsDir ''lib'' []],
        FsFile ''A.txt'' 3 4]
     = [DirectoryEntry ''src'' ''src''
          [DirectoryEntry ''lib'' ''src/lib'' [],
           FileEntry ''alpha.js'' ''src/alpha.js'' 7 8, FileEntry ''Zeta.js'' ''src/Zeta.js'' 5 6],
        FileEntry ''A.txt'' ''A.txt'' 3 4, FileEntry ''b.txt'' ''b.txt'' 1 2]"
    by code_simp
  from buildFileTree_order [of collation_compare "[]"
      "[FsFile ''b.txt'' 1 2, FsDir ''src'' [FsFile ''Zeta.js'' 5 6, FsFile ''alpha.js'' 7 8, FsDir ''lib'' []],
        FsFile ''A.txt'' 3 4]"]
    collation_compare_total collation_compare_trans
  show ?thesis
    unfolding listing by blast
qed

section \<open>Change Watcher: theorems\<close>

lemma printable_not_terminator: "printable_ascii c \<Longrightarrow> \<not> line_terminator (of_char c)"
  by (auto simp: printable_ascii_def line_terminator_def)

lemma ignored_from_hidden_segment:
  "\<not> line_terminator (of_char c) \<Longrightarrow> ignored_from at_start (dir @ CHR ''/'' # CHR ''.'' # c # rest)"
  by (induction dir arbitrary: at_start) simp_all

lemma ignored_pattern_hidden_segment:
  "printable_ascii c \<Longrightarrow> ignored_pattern (dir @ CHR ''/'' # CHR ''.'' # c # rest)"
  by (simp add: ignored_pattern_def ignored_from_hidden_segment printable_not_terminator)

lemma split_slash_not_Nil [simp]: "split_slash s \<noteq> []"
  by (induction s) (auto split: list.splits)




lemma watcher_ignored: "ignored_pattern (npath n) \<Longrightarrow> watcher W n = []"
  by (simp add: watcher_def chokidar_emits_def watcher_options_def)











section \<open>Listing and Watcher together\<close>

lemma listing_shows_every_entry:
  "set (concat (map entry_paths (buildFileTree localeCompare basePath items)))
     = set (concat (map (node_paths basePath) items))"
  "entry_name ` set (buildFileTree localeCompare basePath items) = node_name ` set items"
  by (rule paths_buildFileTree, rule names_buildFileTree)

text \<open>
  C10. The listing is claimed to show every entry whose name begins with a dot, while
  the Watcher never emits an event for such an entry. The listing does show them: it
  filters nothing (\<open>listing_shows_every_entry\<close>). The Watcher's pattern, given under the
  comment "ignore dotfiles", asks for a character after the dot that is not a line
  terminator. A file named dot, carriage return, \<open>x\<close> has a name that begins with a dot
  and is in the listing; the pattern does not match its path, and the Watcher reports
  its change.
\<close>

theorem watcher_reports_hidden_name:
  "buildFileTree collation_compare [] [FsFile [CHR ''.'', CHR 0x0D, CHR ''x''] 1 2]
     = [FileEntry [CHR ''.'', CHR 0x0D, CHR ''x''] [CHR ''.'', CHR 0x0D, CHR ''x''] 1 2]
   \<and> watcher ''/srv/app/workspace''
       \<lparr>kind = Change, npath = ''/srv/app/workspace/'' @ [CHR ''.'', CHR 0x0D, CHR ''x''],
        initial_scan = False\<rparr>
     = [FileChanged [CHR ''.'', CHR 0x0D, CHR ''x'']]"
proof -
  have "buildFileTree collation_compare [] [FsFile [CHR ''.'', CHR 0x0D, CHR ''x''] 1 2]
     = [FileEntry [CHR ''.'', CHR 0x0D, CHR ''x''] [CHR ''.'', CHR 0x0D, CHR ''x''] 1 2]"
    by (simp add: buildFileTree_def path_join_def path_normalize_def)
  moreover have "watcher ''/srv/app/workspace''
       \<lparr>kind = Change, npath = ''/srv/app/workspace/'' @ [CHR ''.'', CHR 0x0D, CHR ''x''],
        initial_scan = False\<rparr>
     = [FileChanged [CHR ''.'', CHR 0x0D, CHR ''x'']]"
    by (simp add: watcher_def chokidar_emits_def watcher_options_def ignored_pattern_def
        line_terminator_def path_relative_def abs_segments_def)
  ultimately show ?thesis by simp
qed

text \<open>
  For the names the pattern does cover, the claim holds: an entry with a name that
  begins with a dot followed by a printable ASCII character is in the listing, and no
  event about it is emitted.
\<close>

lemma hidden_entry_listed_and_silent:
  "node \<in> set items \<Longrightarrow> node_name node = CHR ''.'' # c # rest \<Longrightarrow> printable_ascii c
   \<Longrightarrow> npath n = W @ sub @ CHR ''/'' # node_name node
   \<Longrightarrow> node_name node \<in> entry_name ` set (buildFileTree localeCompare basePath items)
     \<and> watcher W n = []"
proof -
  assume node: "node \<in> set items" and name: "node_name node = CHR ''.'' # c # rest"
    and c: "printable_ascii c" and p: "npath n = W @ sub @ CHR ''/'' # node_name node"
  from node have "node_name node \<in> node_name ` set items" by blast
  then have listed: "node_name node \<in> entry_name ` set (buildFileTree localeCompare basePath items)"
    by (simp only: names_buildFileTree)
  from p name have "ignored_pattern (npath n)"
    using ignored_pattern_hidden_segment [OF c, of "W @ sub" rest] by simp
  then have "watcher W n = []" by (rule watcher_ignored)
  with listed show ?thesis by simp
qed

end
